theory Spec2Isabelle
  imports Main "HOL-Library.Sublist" "HOL-Library.Char_ord" "HOL-Library.List_Lexorder"
begin

section \<open>dl4m.py: reports derived from a bibliography\<close>

text \<open>
  The script reads a list of bibliography entries (Python dicts from field name to string),
  writes listing files, and rewrites README.md line by line. The model below follows
  dl4m.py function by function. Python strings are \<^typ>\<open>string\<close>, a dict is a map
  \<^typ>\<open>string \<rightharpoonup> string\<close>, an exception is the \<open>Inl\<close> branch of a sum, and the
  file system and the standard output are an explicit \<open>world\<close> that every effectful
  function takes and returns. A character is a \<^typ>\<open>char\<close>, a code point
  below 256; Python compares strings code point by code point, which on \<^typ>\<open>string\<close> is
  the lexicographic order of the library.
\<close>

subsection \<open>Python values, exceptions and the world\<close>

text \<open>The exceptions of Python that the script can raise. \<open>OutsideModel\<close> is no
  exception: it is the answer of the model where it does not follow the libraries.\<close>

datatype error =
    KeyError string
  | IndexError
  | AssertionError string
  | ValueError
  | FileNotFoundError string
  | OutsideModel

type_synonym entry = "string \<rightharpoonup> string"

text \<open>
  \<open>files\<close> holds the characters of each file as they are stored (the files are texts
  in UTF-8, which decoding and encoding leave as they are); \<open>stdout\<close> is everything
  printed so far. Text written is stored as it is, a line feed as a line feed, as on a
  POSIX system.
\<close>

record world =
  files :: "string \<rightharpoonup> string"
  stdout :: string

type_synonym 'a io = "world \<Rightarrow> error + ('a \<times> world)"

definition io_return :: "'a \<Rightarrow> 'a io" where
  "io_return x = (\<lambda>w. Inr (x, w))"

definition io_bind :: "'a io \<Rightarrow> ('a \<Rightarrow> 'b io) \<Rightarrow> 'b io" where
  "io_bind m f = (\<lambda>w. case m w of Inl e \<Rightarrow> Inl e | Inr (x, w') \<Rightarrow> f x w')"

definition io_raise :: "error \<Rightarrow> 'a io" where
  "io_raise e = (\<lambda>w. Inl e)"

text \<open>\<open>print(s)\<close>: the line and a newline go to the standard output.\<close>

definition print :: "string \<Rightarrow> unit io" where
  "print s = (\<lambda>w. Inr ((), w\<lparr>stdout := stdout w @ s @ ''\<newline>''\<rparr>))"

text \<open>\<open>open(fn, "w").write(s)\<close>: the file is created or replaced.\<close>

definition write_file :: "string \<Rightarrow> string \<Rightarrow> unit io" where
  "write_file fn s = (\<lambda>w. Inr ((), w\<lparr>files := (files w)(fn \<mapsto> s)\<rparr>))"

text \<open>\<open>open(fn, "r")\<close> raises when the file does not exist.\<close>

definition read_file :: "string \<Rightarrow> string io" where
  "read_file fn = (\<lambda>w. case files w fn of None \<Rightarrow> Inl (FileNotFoundError fn) | Some s \<Rightarrow> Inr (s, w))"

text \<open>
  A file opened for reading in text mode, as all files here are, translates line endings:
  a carriage return followed by a line feed, and a carriage return alone, are read as one
  line feed.
\<close>

fun universal_newlines :: "string \<Rightarrow> string" where
  "universal_newlines [] = []"
| "universal_newlines [c] = (if c = CHR 0x0D then [CHR ''\<newline>''] else [c])"
| "universal_newlines (c # d # cs) =
     (if c = CHR 0x0D then
        (if d = CHR ''\<newline>'' then CHR ''\<newline>'' # universal_newlines cs
         else CHR ''\<newline>'' # universal_newlines (d # cs))
      else c # universal_newlines (d # cs))"

text \<open>The translated text is cut after each line feed: every line keeps its final
  newline, and only the last line can lack one.\<close>

fun file_lines :: "string \<Rightarrow> string list" where
  "file_lines [] = []"
| "file_lines (c # cs) =
     (if c = CHR ''\<newline>'' then [c] # file_lines cs
      else (case file_lines cs of [] \<Rightarrow> [[c]] | l # ls \<Rightarrow> (c # l) # ls))"

text \<open>\<open>for line in filep\<close>: the lines that iterating over the open file yields, for a
  file that holds \<open>raw\<close>.\<close>

definition read_lines :: "string \<Rightarrow> string list" where
  "read_lines raw = file_lines (universal_newlines raw)"

text \<open>\<open>str(n)\<close> for a length or a count: decimal digits.\<close>

fun str_nat :: "nat \<Rightarrow> string" where
  "str_nat n =
     (if n < 10 then [''0123456789'' ! n]
      else str_nat (n div 10) @ [''0123456789'' ! (n mod 10)])"

declare str_nat.simps [simp del]

text \<open>\<open>sub in s\<close> on strings: \<open>sub\<close> occurs in \<open>s\<close> as a contiguous piece.\<close>

fun contains :: "string \<Rightarrow> string \<Rightarrow> bool" where
  "contains sub [] = (sub = [])"
| "contains sub (c # cs) = (prefix sub (c # cs) \<or> contains sub cs)"

text \<open>
  \<open>s.split(sep)\<close>: cut at every occurrence of \<open>sep\<close>, found from the left and without
  overlap. Both call sites pass a non-empty constant (Python raises on an empty separator;
  here an empty separator cuts nowhere).
\<close>

fun split_py :: "string \<Rightarrow> string \<Rightarrow> string list" where
  "split_py sep [] = [[]]"
| "split_py sep (c # cs) =
     (if sep \<noteq> [] \<and> prefix sep (c # cs)
      then [] # split_py sep (drop (length sep) (c # cs))
      else (case split_py sep cs of [] \<Rightarrow> [[c]] | p # ps \<Rightarrow> (c # p) # ps))"

text \<open>\<open>sep.join(xs)\<close>.\<close>

fun join :: "string \<Rightarrow> string list \<Rightarrow> string" where
  "join sep [] = []"
| "join sep [x] = x"
| "join sep (x # y # ys) = x @ sep @ join sep (y # ys)"

text \<open>\<open>sorted(set(xs))\<close> and \<open>len(set(xs))\<close>; strings compare character by character.\<close>

definition sorted_set :: "string list \<Rightarrow> string list" where
  "sorted_set xs = sorted_list_of_set (set xs)"

definition len_set :: "string list \<Rightarrow> nat" where
  "len_set xs = card (set xs)"

subsection \<open>validate_field\<close>

text \<open>The local list \<open>fields\<close> of \<open>validate_field\<close>.\<close>

definition valid_fields :: "string list" where
  "valid_fields = [''task'', ''dataset'', ''architecture'', ''author'', ''dataaugmentation'',
     ''link'', ''title'', ''year'', ''journal'', ''ENTRYTYPE'']"

definition validate_field :: "string \<Rightarrow> error + unit" where
  "validate_field field_name =
     (let error_str = ''Invalid field provided: '' @ field_name @ ''. '';
          error_str = error_str @ ''Valid fields: '' @ ''['' @ join '', '' valid_fields @ '']''
      in if field_name \<in> set valid_fields then Inr () else Inl (AssertionError error_str))"

subsection \<open>get_nb_articles\<close>

definition get_nb_articles :: "entry list \<Rightarrow> nat io" where
  "get_nb_articles bib =
     io_bind (print (''There are '' @ str_nat (length bib) @ '' articles referenced.''))
       (\<lambda>_. io_return (length bib))"

subsection \<open>get_authors\<close>

text \<open>The two nested loops; \<open>entry['author']\<close> raises on an entry with no such key.\<close>

fun collect_authors :: "entry list \<Rightarrow> string list \<Rightarrow> error + string list" where
  "collect_authors [] authors = Inr authors"
| "collect_authors (entry # bib) authors =
     (case entry ''author'' of
        None \<Rightarrow> Inl (KeyError ''author'')
      | Some v \<Rightarrow> collect_authors bib (authors @ split_py '' and '' v))"

definition bullet_lines :: "string list \<Rightarrow> string" where
  "bullet_lines xs = concat (map (\<lambda>x. ''- '' @ x @ ''\<newline>'') xs)"

definition get_authors :: "entry list \<Rightarrow> nat io" where
  "get_authors bib =
     (case collect_authors bib [] of
        Inl e \<Rightarrow> io_raise e
      | Inr authors0 \<Rightarrow>
          (let authors = sorted_set authors0;
               nb_authors = length authors;
               authors_fn = ''authors.md''
           in io_bind (print (''There are '' @ str_nat nb_authors @ '' researchers working on DL4M.''))
             (\<lambda>_. io_bind (write_file authors_fn
                      (''# List of authors\<newline>\<newline>'' @ bullet_lines authors))
             (\<lambda>_. io_bind (print (''List of authors written in '' @ authors_fn))
             (\<lambda>_. io_return nb_authors)))))"

subsection \<open>generate_list_articles\<close>

text \<open>The body of the loop: what one entry appends to \<open>articles\<close>.\<close>

definition append_article :: "entry \<Rightarrow> string \<Rightarrow> string" where
  "append_article entry articles =
     (case entry ''title'' of
        None \<Rightarrow> articles
      | Some title \<Rightarrow>
          (let articles =
                 (case entry ''link'' of
                    Some link \<Rightarrow> articles @ ''| ['' @ title @ '']('' @ link @ '') | ''
                  | None \<Rightarrow> articles @ ''| '' @ title @ '' | '');
               articles =
                 (case entry ''code'' of
                    Some code \<Rightarrow>
                      (if contains ''No'' code then articles @ ''No ''
                       else (let articles =
                                   (if contains ''github'' code then articles @ ''[GitHub''
                                    else articles @ ''[Website'')
                             in articles @ '']('' @ code @ '') ''))
                  | None \<Rightarrow> articles @ ''No '')
           in articles @ ''|\<newline>''))"

fun list_articles_loop :: "entry list \<Rightarrow> string \<Rightarrow> string" where
  "list_articles_loop [] articles = articles"
| "list_articles_loop (entry # bib) articles = list_articles_loop bib (append_article entry articles)"

definition generate_list_articles :: "entry list \<Rightarrow> string" where
  "generate_list_articles bib = list_articles_loop bib []"

text \<open>
  The same table as section 4.4 of the specification words it: one row for each record
  that has a title, whose code cell is decided by the two substring tests in order.
\<close>

definition code_cell_spec :: "string option \<Rightarrow> string" where
  "code_cell_spec code =
     (case code of
        None \<Rightarrow> ''No ''
      | Some c \<Rightarrow>
          if contains ''No'' c then ''No ''
          else if contains ''github'' c then ''[GitHub]('' @ c @ '') ''
          else ''[Website]('' @ c @ '') '')"

definition row_spec :: "entry \<Rightarrow> string" where
  "row_spec r =
     ''| '' @
     (case r ''link'' of
        Some link \<Rightarrow> ''['' @ the (r ''title'') @ '']('' @ link @ '') | ''
      | None \<Rightarrow> the (r ''title'') @ '' | '') @
     code_cell_spec (r ''code'') @ ''|\<newline>''"

definition renderArticles_spec :: "entry list \<Rightarrow> string" where
  "renderArticles_spec records = concat (map row_spec (filter (\<lambda>r. r ''title'' \<noteq> None) records))"

subsection \<open>get_field\<close>

text \<open>The accumulator \<open>fields\<close> of the source is \<open>fields'\<close> here.\<close>

fun collect_fields :: "string \<Rightarrow> entry list \<Rightarrow> nat \<Rightarrow> string list \<Rightarrow> nat \<times> string list" where
  "collect_fields field_name [] nb_article_missing fields' = (nb_article_missing, fields')"
| "collect_fields field_name (entry # bib) nb_article_missing fields' =
     (case entry field_name of
        Some v \<Rightarrow> collect_fields field_name bib nb_article_missing (fields' @ split_py '' & '' v)
      | None \<Rightarrow> collect_fields field_name bib (nb_article_missing + 1) fields')"

definition get_field :: "entry list \<Rightarrow> string \<Rightarrow> nat io" where
  "get_field bib field_name =
     (case validate_field field_name of
        Inl e \<Rightarrow> io_raise e
      | Inr _ \<Rightarrow>
          (case collect_fields field_name bib 0 [] of
             (nb_article_missing, fields') \<Rightarrow>
               io_bind (print (str_nat nb_article_missing @ '' entries are missing the ''
                          @ field_name @ '' field.''))
               (\<lambda>_. let nb_fields = len_set fields' in
                 io_bind (print (str_nat nb_fields @ '' unique '' @ field_name @ ''.''))
               (\<lambda>_. let field_fn = field_name @ ''s.md'' in
                 io_bind (write_file field_fn
                    (''# List of '' @ field_name @ ''s\<newline>\<newline>''
                     @ ''Please refer to the list of useful acronyms used in deep ''
                     @ ''learning and music: [acronyms.md](acronyms.md).\<newline>\<newline>''
                     @ bullet_lines (sorted_set fields')))
               (\<lambda>_. io_bind (print (''List of '' @ field_name @ ''s written in '' @ field_fn))
               (\<lambda>_. io_return nb_fields))))))"

text \<open>
  The values section 4.2 of the specification collects: for each record that has the field,
  in order, the pieces of its value cut at \<open>" & "\<close>.
\<close>

definition field_values :: "string \<Rightarrow> entry list \<Rightarrow> string list" where
  "field_values field_name bib =
     concat (map (\<lambda>e. case e field_name of None \<Rightarrow> [] | Some v \<Rightarrow> split_py '' & '' v) bib)"

subsection \<open>generate_summary_table\<close>

text \<open>The six values computed before README.md is opened.\<close>

record fragments =
  nb_articles :: string
  nb_authors :: string
  nb_tasks :: string
  nb_datasets :: string
  nb_archi :: string
  articles :: string

text \<open>
  The first test of the loop, \<open>"| " in line[:2] and line[2] != " "\<close>. The slice never
  raises; \<open>line[2]\<close> is evaluated only when the first conjunct holds, and raises on a line
  of two characters.
\<close>

definition is_table_line :: "string \<Rightarrow> error + bool" where
  "is_table_line line =
     (if contains ''| '' (take 2 line)
      then (if 2 < length line then Inr (line ! 2 \<noteq> CHR '' '') else Inl IndexError)
      else Inr False)"

text \<open>One iteration of the loop over the lines, on the pair \<open>(readme, pasted_articles)\<close>.\<close>

definition rewrite_line :: "fragments \<Rightarrow> string \<Rightarrow> string \<times> bool \<Rightarrow> error + string \<times> bool" where
  "rewrite_line fr line st =
     (case st of (readme, pasted_articles) \<Rightarrow>
       (case is_table_line line of
          Inl e \<Rightarrow> Inl e
        | Inr True \<Rightarrow>
            (if \<not> pasted_articles then Inr (readme @ articles fr, True)
             else Inr (readme, pasted_articles))
        | Inr False \<Rightarrow>
            (if contains ''papers referenced'' line then
               Inr (readme @ ''- '' @ nb_articles fr @ '' papers referenced. ''
                      @ ''See the details in [dl4m.bib](dl4m.bib).\<newline>'', pasted_articles)
             else if contains ''unique researchers'' line then
               Inr (readme @ ''- '' @ nb_authors fr @ '' unique researchers. ''
                      @ ''See the list of [authors](authors.md).\<newline>'', pasted_articles)
             else if contains ''tasks investigated'' line then
               Inr (readme @ ''- '' @ nb_tasks fr @ '' tasks investigated. ''
                      @ ''See the list of [tasks](tasks.md).\<newline>'', pasted_articles)
             else if contains ''datasets used'' line then
               Inr (readme @ ''- '' @ nb_datasets fr @ '' datasets used. ''
                      @ ''See the list of [datasets](datasets.md).\<newline>'', pasted_articles)
             else if contains ''architecture used'' line then
               Inr (readme @ ''- '' @ nb_archi fr @ '' architectures used. ''
                      @ ''See the list of [architectures](architectures.md).\<newline>'', pasted_articles)
             else Inr (readme @ line, pasted_articles))))"

fun rewrite_loop :: "fragments \<Rightarrow> string list \<Rightarrow> string \<times> bool \<Rightarrow> error + string \<times> bool" where
  "rewrite_loop fr [] st = Inr st"
| "rewrite_loop fr (line # rest) st =
     (case rewrite_line fr line st of Inl e \<Rightarrow> Inl e | Inr st' \<Rightarrow> rewrite_loop fr rest st')"

text \<open>The second half of \<open>generate_summary_table\<close>: README.md is read, rewritten in
  memory and written back only when the loop has finished.\<close>

definition rewrite_readme :: "fragments \<Rightarrow> unit io" where
  "rewrite_readme fr =
     (let readme_fn = ''README.md'' in
      io_bind (read_file readme_fn)
        (\<lambda>doc. case rewrite_loop fr (read_lines doc) ([], False) of
            Inl e \<Rightarrow> io_raise e
          | Inr (readme, _) \<Rightarrow>
              io_bind (write_file readme_fn readme) (\<lambda>_. print ''New ReadMe generated'')))"

definition generate_summary_table :: "entry list \<Rightarrow> unit io" where
  "generate_summary_table bib =
     io_bind (get_nb_articles bib) (\<lambda>n_articles.
     io_bind (get_authors bib) (\<lambda>n_authors.
     io_bind (get_field bib ''task'') (\<lambda>n_tasks.
     io_bind (get_field bib ''dataset'') (\<lambda>n_datasets.
     io_bind (get_field bib ''architecture'') (\<lambda>n_archi.
       rewrite_readme
         \<lparr>nb_articles = str_nat n_articles, nb_authors = str_nat n_authors,
          nb_tasks = str_nat n_tasks, nb_datasets = str_nat n_datasets,
          nb_archi = str_nat n_archi, articles = generate_list_articles bib\<rparr>)))))"

subsection \<open>generate_summary_table: what the loop computes, line by line\<close>

text \<open>
  The text the \<open>elif\<close> chain puts in place of a line that is not a table line: one of
  the five count lines, or the line itself when no anchor occurs in it.
\<close>

definition count_line :: "fragments \<Rightarrow> string \<Rightarrow> string" where
  "count_line fr line =
     (if contains ''papers referenced'' line then
        ''- '' @ nb_articles fr @ '' papers referenced. See the details in [dl4m.bib](dl4m.bib).\<newline>''
      else if contains ''unique researchers'' line then
        ''- '' @ nb_authors fr @ '' unique researchers. See the list of [authors](authors.md).\<newline>''
      else if contains ''tasks investigated'' line then
        ''- '' @ nb_tasks fr @ '' tasks investigated. See the list of [tasks](tasks.md).\<newline>''
      else if contains ''datasets used'' line then
        ''- '' @ nb_datasets fr @ '' datasets used. See the list of [datasets](datasets.md).\<newline>''
      else if contains ''architecture used'' line then
        ''- '' @ nb_archi fr @ '' architectures used. See the list of [architectures](architectures.md).\<newline>''
      else line)"

text \<open>The table test as a condition on the characters of the line, and the lines on
  which no branch but the last of the chain applies.\<close>

definition table_line :: "string \<Rightarrow> bool" where
  "table_line line \<longleftrightarrow> take 2 line = ''| '' \<and> 2 < length line \<and> line ! 2 \<noteq> CHR '' ''"

definition matches_no_anchor :: "string \<Rightarrow> bool" where
  "matches_no_anchor line \<longleftrightarrow>
     is_table_line line = Inr False \<and> \<not> contains ''papers referenced'' line
     \<and> \<not> contains ''unique researchers'' line \<and> \<not> contains ''tasks investigated'' line
     \<and> \<not> contains ''datasets used'' line \<and> \<not> contains ''architecture used'' line"

text \<open>
  The pieces the loop appends, one for each line, when no line makes it raise; \<open>pasted\<close>
  is the flag before the first of the lines.
\<close>

fun segments :: "fragments \<Rightarrow> bool \<Rightarrow> string list \<Rightarrow> string list" where
  "segments fr pasted [] = []"
| "segments fr pasted (line # rest) =
     (if table_line line then (if pasted then [] else articles fr) # segments fr True rest
      else count_line fr line # segments fr pasted rest)"

subsection \<open>articles_per_year\<close>

text \<open>
  The loop that collects the years. \<open>int\<close> is Python's builtin and is a parameter here:
  \<open>to_int\<close> gives the integer a string denotes or the exception \<open>int\<close> raises on it.
\<close>

fun collect_years :: "(string \<Rightarrow> error + int) \<Rightarrow> entry list \<Rightarrow> int list \<Rightarrow> error + int list" where
  "collect_years to_int [] years = Inr years"
| "collect_years to_int (entry # bib) years =
     (case entry ''year'' of
        None \<Rightarrow> Inl (KeyError ''year'')
      | Some v \<Rightarrow>
          (case to_int v of
             Inl e \<Rightarrow> Inl e
           | Inr year \<Rightarrow> collect_years to_int bib (years @ [year])))"

text \<open>
  \<open>int(s)\<close> on a string: white space around the number is skipped, then come an optional
  sign and decimal digits, with single underscores allowed between digits. Among the
  characters below 256 the white space is tab, line feed, vertical tab, form feed,
  carriage return, space, next line (0x85) and no-break space (0xA0), and the decimal
  digits are \<open>0\<close> to \<open>9\<close>. More than 4300 digits are refused (the default limit of the
  interpreter).
\<close>

definition py_isspace :: "char \<Rightarrow> bool" where
  "py_isspace c \<longleftrightarrow>
     c \<in> {CHR 0x09, CHR 0x0A, CHR 0x0B, CHR 0x0C, CHR 0x0D, CHR '' '', CHR 0x85, CHR 0xA0}"

definition py_isdigit :: "char \<Rightarrow> bool" where
  "py_isdigit c \<longleftrightarrow> CHR ''0'' \<le> c \<and> c \<le> CHR ''9''"

definition py_int :: "string \<Rightarrow> error + int" where
  "py_int s =
     (let s1 = dropWhile py_isspace s;
          negative = (s1 \<noteq> [] \<and> hd s1 = CHR ''-'');
          s2 = (if s1 \<noteq> [] \<and> (hd s1 = CHR ''+'' \<or> hd s1 = CHR ''-'') then tl s1 else s1);
          body = takeWhile (\<lambda>c. py_isdigit c \<or> c = CHR ''_'') s2;
          rest = dropWhile (\<lambda>c. py_isdigit c \<or> c = CHR ''_'') s2;
          digits = filter py_isdigit body
      in if body = [] \<or> hd body = CHR ''_'' \<or> last body = CHR ''_'' \<or> contains ''__'' body
            \<or> \<not> list_all py_isspace rest \<or> 4300 < length digits
         then Inl ValueError
         else Inr ((if negative then - 1 else 1)
                   * foldl (\<lambda>n c. 10 * n + (of_char c - 48)) 0 digits))"

text \<open>\<open>min\<close> and \<open>max\<close> of a list raise on the empty list.\<close>

definition py_min :: "int list \<Rightarrow> error + int" where
  "py_min xs = (case xs of [] \<Rightarrow> Inl ValueError | x # rest \<Rightarrow> Inr (fold min rest x))"

definition py_max :: "int list \<Rightarrow> error + int" where
  "py_max xs = (case xs of [] \<Rightarrow> Inl ValueError | x # rest \<Rightarrow> Inr (fold max rest x))"

text \<open>
  The bin edges are 64-bit floating-point numbers. All the numbers that occur are whole,
  so a floating-point number is given here by the integer it equals, and \<open>f64 n\<close> is the
  floating-point number nearest to the integer \<open>n\<close>: \<open>n\<close> rounded to 53 significant bits,
  a tie going to the even significand. Every operation on floating-point numbers gives
  the exact result rounded in this way.
\<close>

fun bit_length :: "nat \<Rightarrow> nat" where
  "bit_length n = (if n = 0 then 0 else Suc (bit_length (n div 2)))"

declare bit_length.simps [simp del]

definition f64 :: "int \<Rightarrow> int" where
  "f64 n =
     (let a = nat \<bar>n\<bar>;
          k = bit_length a - 53;
          q = a div 2 ^ k;
          r = a mod 2 ^ k;
          q' = (if 2 ^ k < 2 * r \<or> (2 * r = 2 ^ k \<and> odd q) then q + 1 else q)
      in sgn n * int (q' * 2 ^ k))"

text \<open>
  \<open>np.arange(start, stop, 1.0)\<close> for an integer \<open>start\<close> and a floating-point \<open>stop\<close>. The
  length is the difference of \<open>stop\<close> and \<open>start\<close> as a floating-point number; the first
  two elements are \<open>start\<close> and \<open>start + 1.0\<close>, and element \<open>i\<close> is the first plus \<open>i\<close>
  times the difference of the first two, all in floating-point arithmetic.
\<close>

definition np_arange :: "int \<Rightarrow> int \<Rightarrow> int list" where
  "np_arange start stop =
     (let first = f64 start;
          next = f64 (f64 start + 1);
          length = nat (f64 (stop - f64 start));
          delta = f64 (next - first)
      in map (\<lambda>i. if i = 0 then first else if i = 1 then next
                    else f64 (first + f64 (int i * delta)))
           [0..<length])"

text \<open>
  The counts \<open>plt.hist(xs, bins=edges)\<close> computes and draws. The values are compared
  with the edges as floating-point numbers; bin \<open>i\<close> holds the values from edge \<open>i\<close> up
  to but excluding edge \<open>i + 1\<close>, and the last bin includes its right edge. The result
  is the pair of the counts and the edges. The edges that \<open>np_arange\<close> gives never
  decrease, so the refusal of decreasing edges is left out.
\<close>

definition hist :: "int list \<Rightarrow> int list \<Rightarrow> nat list \<times> int list" where
  "hist xs edges =
     (map (\<lambda>i. length (filter (\<lambda>x. edges ! i \<le> x \<and>
                  (if i + 2 = length edges then x \<le> edges ! (i + 1) else x < edges ! (i + 1)))
                  (map f64 xs)))
          [0..<length edges - 1],
      edges)"

text \<open>
  The world of \<open>articles_per_year\<close> has, besides the files and the standard output, the
  directories that exist, the histograms drawn so far on the current figure, and for each
  figure file saved what the figure held.
\<close>

record plot_world = world +
  dirs :: "string set"
  canvas :: "(nat list \<times> int list) list"
  figures :: "string \<rightharpoonup> (nat list \<times> int list) list"

text \<open>
  \<open>articles_per_year\<close>. The labels and the axes of the figure are not in the model.
  numpy holds the years in an array of 64-bit integers when they all fit one; the model
  follows the libraries for such years only, and it disregards the memory that a long
  array of edges takes. \<open>plt.savefig\<close> raises when the directory \<open>fig\<close> does not exist.
\<close>

definition articles_per_year ::
  "(string \<Rightarrow> error + int) \<Rightarrow> entry list \<Rightarrow> plot_world \<Rightarrow> error + unit \<times> plot_world" where
  "articles_per_year to_int bib w =
     (case collect_years to_int bib [] of
        Inl e \<Rightarrow> Inl e
      | Inr years \<Rightarrow>
          (case py_min years of
             Inl e \<Rightarrow> Inl e
           | Inr lo \<Rightarrow>
               (case py_max years of
                  Inl e \<Rightarrow> Inl e
                | Inr hi \<Rightarrow>
                    if lo < - (2 ^ 63) \<or> 2 ^ 63 \<le> hi then Inl OutsideModel
                    else
                      (let year_bins = np_arange lo (f64 (f64 hi + 2));
                           w1 = w\<lparr>canvas := canvas w @ [hist years year_bins]\<rparr>;
                           fig_fn = ''fig/articles_per_year.png''
                       in if ''fig'' \<in> dirs w1
                          then Inr ((), w1\<lparr>figures := (figures w1)(fig_fn \<mapsto> canvas w1),
                                         stdout := stdout w1
                                           @ ''Fig. with number of articles per year saved in ''
                                           @ fig_fn @ ''\<newline>''\<rparr>)
                          else Inl (FileNotFoundError fig_fn)))))"

section \<open>Properties\<close>

subsection \<open>Strings\<close>

lemma contains_iff_sublist: "contains sub s \<longleftrightarrow> sublist sub s"
  by (induction s) (auto simp: sublist_Cons_right)

lemma valid_fields_distinct: "distinct valid_fields \<and> length valid_fields = 10"
  by (simp add: valid_fields_def)

subsection \<open>validate_field\<close>

text \<open>
  C4 (as amended). \<open>validate_field\<close> accepts exactly the ten names of its list, which are
  distinct: task, dataset, architecture, author, dataaugmentation, link, title, year,
  journal and ENTRYTYPE (in capitals, the key the parser gives the entry type). Every other
  string fails the assertion, with a message that names the string and lists the ten
  valid names.
\<close>

theorem validate_field_accepts_exactly:
  "(validate_field f = Inr ()) =
     (f \<in> {''task'', ''dataset'', ''architecture'', ''author'', ''dataaugmentation'',
            ''link'', ''title'', ''year'', ''journal'', ''ENTRYTYPE''})
   \<and> (validate_field f \<noteq> Inr () \<longrightarrow>
        validate_field f = Inl (AssertionError (''Invalid field provided: '' @ f @
          ''. Valid fields: [task, dataset, architecture, author, dataaugmentation, link, title, year, journal, ENTRYTYPE]'')))"
  by (simp add: validate_field_def valid_fields_def Let_def)

theorem validate_field_accepts_exactly_witness:
  "validate_field ''colour'' \<noteq> Inr ()
   \<and> validate_field ''colour'' = Inl (AssertionError
       ''Invalid field provided: colour. Valid fields: [task, dataset, architecture, author, dataaugmentation, link, title, year, journal, ENTRYTYPE]'')
   \<and> validate_field ''task'' = Inr ()"
  using validate_field_accepts_exactly [of "''colour''"] validate_field_accepts_exactly [of "''task''"]
  by simp

text \<open>
  C4 as stated names the tenth field \<open>entryType\<close>: that string is rejected, and
  \<open>ENTRYTYPE\<close> is accepted.
\<close>

theorem validate_field_entryType_counterexample:
  "validate_field ''entryType'' \<noteq> Inr () \<and> validate_field ''ENTRYTYPE'' = Inr ()"
  by (simp add: validate_field_def valid_fields_def Let_def)

subsection \<open>The world\<close>

lemma io_simps:
  "io_bind m f w = (case m w of Inl e \<Rightarrow> Inl e | Inr (x, w') \<Rightarrow> f x w')"
  "io_return x w = Inr (x, w)"
  "io_raise e w = Inl e"
  by (simp_all add: io_bind_def io_return_def io_raise_def)

lemma sorted_set_code: "sorted_set xs = sort (remdups xs)"
  by (simp add: sorted_set_def sorted_list_of_set_sort_remdups)

lemma len_set_code: "len_set xs = length (remdups xs)"
  by (simp add: len_set_def card_set)

subsection \<open>generate_list_articles\<close>

lemma append_article_row:
  "append_article e acc = acc @ (if e ''title'' = None then [] else row_spec e)"
  by (simp add: append_article_def row_spec_def code_cell_spec_def Let_def split: option.splits)

lemma list_articles_loop_rows:
  "list_articles_loop bib acc = acc @ renderArticles_spec bib"
  by (induction bib arbitrary: acc) (simp_all add: renderArticles_spec_def append_article_row)

text \<open>
  C5. \<open>generate_list_articles\<close> returns the rows the specification describes: one row, in
  order, for each record that has a title and none for the others, the code cell being
  \<open>No\<close> when the code value contains \<open>No\<close> or is absent, else a GitHub link when it
  contains \<open>github\<close>, else a Website link. On the three records of the example it
  returns the three rows of the example.
\<close>

theorem generate_list_articles_rows:
  "generate_list_articles bib = renderArticles_spec bib
   \<and> generate_list_articles
         [[''title'' \<mapsto> ''A'', ''link'' \<mapsto> ''u'', ''code'' \<mapsto> ''No''],
          [''title'' \<mapsto> ''B'', ''code'' \<mapsto> ''github.com/x''],
          [''title'' \<mapsto> ''C'']]
       = ''| [A](u) | No |\<newline>| B | [GitHub](github.com/x) |\<newline>| C | No |\<newline>''"
proof
  show "generate_list_articles bib = renderArticles_spec bib"
    using list_articles_loop_rows [of bib "[]"] by (simp add: generate_list_articles_def)
next
  show "generate_list_articles
         [[''title'' \<mapsto> ''A'', ''link'' \<mapsto> ''u'', ''code'' \<mapsto> ''No''],
          [''title'' \<mapsto> ''B'', ''code'' \<mapsto> ''github.com/x''],
          [''title'' \<mapsto> ''C'']]
       = ''| [A](u) | No |\<newline>| B | [GitHub](github.com/x) |\<newline>| C | No |\<newline>''"
    by (simp add: generate_list_articles_def append_article_def)
qed

theorem generate_list_articles_rows_witness:
  "generate_list_articles [[''link'' \<mapsto> ''u''], [''title'' \<mapsto> ''D'', ''code'' \<mapsto> ''example.org/No'']]
     = renderArticles_spec [[''link'' \<mapsto> ''u''], [''title'' \<mapsto> ''D'', ''code'' \<mapsto> ''example.org/No'']]
   \<and> renderArticles_spec [[''link'' \<mapsto> ''u''], [''title'' \<mapsto> ''D'', ''code'' \<mapsto> ''example.org/No'']]
     = ''| D | No |\<newline>''"
  using generate_list_articles_rows [of "[[''link'' \<mapsto> ''u''], [''title'' \<mapsto> ''D'', ''code'' \<mapsto> ''example.org/No'']]"]
  by (simp add: renderArticles_spec_def row_spec_def code_cell_spec_def)

subsection \<open>get_authors\<close>

lemma collect_authors_missing:
  "\<exists>e\<in>set bib. e ''author'' = None \<Longrightarrow> collect_authors bib acc = Inl (KeyError ''author'')"
  by (induction bib arbitrary: acc) (auto split: option.splits)

lemma collect_authors_present:
  "\<forall>e\<in>set bib. e ''author'' \<noteq> None \<Longrightarrow>
     collect_authors bib acc = Inr (acc @ concat (map (\<lambda>e. split_py '' and '' (the (e ''author''))) bib))"
  by (induction bib arbitrary: acc) (auto split: option.splits)

text \<open>
  C8. When some record has no \<open>author\<close> key, \<open>get_authors\<close> raises the key error (the
  missing-field error of the specification) and returns nothing. When every record has
  one, it returns the number of distinct names among all the pieces cut at \<open>" and "\<close>,
  and has written them, sorted, to authors.md.
\<close>

theorem get_authors_missing_author:
  "((\<exists>e\<in>set bib. e ''author'' = None) \<longrightarrow> get_authors bib w = Inl (KeyError ''author''))
   \<and> ((\<forall>e\<in>set bib. e ''author'' \<noteq> None) \<longrightarrow>
        (\<exists>w'. get_authors bib w =
            Inr (len_set (concat (map (\<lambda>e. split_py '' and '' (the (e ''author''))) bib)), w')
          \<and> files w' ''authors.md'' =
              Some (''# List of authors\<newline>\<newline>'' @
                bullet_lines (sorted_set (concat (map (\<lambda>e. split_py '' and '' (the (e ''author''))) bib))))))"
proof (intro conjI impI)
  assume "\<exists>e\<in>set bib. e ''author'' = None"
  then show "get_authors bib w = Inl (KeyError ''author'')"
    by (simp add: get_authors_def collect_authors_missing io_simps)
next
  assume "\<forall>e\<in>set bib. e ''author'' \<noteq> None"
  then have "collect_authors bib [] = Inr (concat (map (\<lambda>e. split_py '' and '' (the (e ''author''))) bib))"
    using collect_authors_present [of bib "[]"] by simp
  then show "\<exists>w'. get_authors bib w =
            Inr (len_set (concat (map (\<lambda>e. split_py '' and '' (the (e ''author''))) bib)), w')
          \<and> files w' ''authors.md'' =
              Some (''# List of authors\<newline>\<newline>'' @
                bullet_lines (sorted_set (concat (map (\<lambda>e. split_py '' and '' (the (e ''author''))) bib))))"
    by (simp add: get_authors_def io_simps print_def write_file_def Let_def sorted_set_def len_set_def)
qed

theorem get_authors_missing_author_witness:
  "get_authors [[''author'' \<mapsto> ''Alice Smith and Bob Lee''], [''title'' \<mapsto> ''T'']]
       \<lparr>files = Map.empty, stdout = []\<rparr>
     = Inl (KeyError ''author'')
   \<and> (\<exists>w'. get_authors [[''author'' \<mapsto> ''Alice Smith and Bob Lee and Alice Smith''],
                         [''author'' \<mapsto> ''Alice Smith and Bob Lee and Alice Smith'']]
              \<lparr>files = Map.empty, stdout = []\<rparr> = Inr (2, w')
          \<and> files w' ''authors.md''
              = Some ''# List of authors\<newline>\<newline>- Alice Smith\<newline>- Bob Lee\<newline>'')"
  using get_authors_missing_author
      [of "[[''author'' \<mapsto> ''Alice Smith and Bob Lee''], [''title'' \<mapsto> ''T'']]"
          "\<lparr>files = Map.empty, stdout = []\<rparr>"]
    get_authors_missing_author
      [of "[[''author'' \<mapsto> ''Alice Smith and Bob Lee and Alice Smith''],
            [''author'' \<mapsto> ''Alice Smith and Bob Lee and Alice Smith'']]"
          "\<lparr>files = Map.empty, stdout = []\<rparr>"]
  by (simp add: sorted_set_code len_set_code bullet_lines_def numeral_2_eq_2)

subsection \<open>get_field\<close>

lemma split_py_not_Nil: "split_py sep s \<noteq> []"
  by (cases s) (auto split: list.splits)

lemma join_Cons: "xs \<noteq> [] \<Longrightarrow> join sep (x # xs) = x @ sep @ join sep xs"
  by (cases xs) simp_all

lemma join_Cons_Cons: "join sep ((c # p) # ps) = c # join sep (p # ps)"
  by (cases ps) simp_all

lemma join_split_py: "join sep (split_py sep s) = s"
proof (induction sep s rule: split_py.induct)
  case (1 sep)
  show ?case by simp
next
  case (2 sep c cs)
  show ?case
  proof (cases "sep \<noteq> [] \<and> prefix sep (c # cs)")
    case True
    then have "c # cs = sep @ drop (length sep) (c # cs)"
      by (metis append_take_drop_id prefix_def append_eq_conv_conj)
    with True 2 show ?thesis
      by (simp add: join_Cons split_py_not_Nil)
  next
    case False
    obtain p ps where ps: "split_py sep cs = p # ps"
      using split_py_not_Nil [of sep cs] by (cases "split_py sep cs") auto
    with False 2 show ?thesis
      by (auto simp: join_Cons_Cons)
  qed
qed

lemma split_py_first_prefix: "split_py sep s = p # ps \<Longrightarrow> prefix p s"
  using join_split_py [of sep s] by (cases ps) (auto simp: prefix_def)

lemma split_py_pieces: "sep \<noteq> [] \<Longrightarrow> p \<in> set (split_py sep s) \<Longrightarrow> \<not> contains sep p"
proof (induction sep s arbitrary: p rule: split_py.induct)
  case (1 sep)
  then show ?case by simp
next
  case (2 sep c cs)
  show ?case
  proof (cases "prefix sep (c # cs)")
    case True
    with 2 show ?thesis by auto
  next
    case False
    obtain q qs where qs: "split_py sep cs = q # qs"
      using split_py_not_Nil [of sep cs] by (cases "split_py sep cs") auto
    have q: "\<not> contains sep q" and rest: "\<forall>x\<in>set qs. \<not> contains sep x"
      using 2 False qs by auto
    have "prefix q cs" using qs by (rule split_py_first_prefix)
    then have "\<not> prefix sep (c # q)"
      using False by (meson Cons_prefix_Cons prefix_order.trans)
    with q have "\<not> contains sep (c # q)" by simp
    with rest 2(4) False qs show ?thesis by auto
  qed
qed

lemma collect_fields_eq:
  "collect_fields f bib m acc =
     (m + length (filter (\<lambda>e. e f = None) bib), acc @ field_values f bib)"
  by (induction bib arbitrary: m acc) (auto simp: field_values_def split: option.splits)

lemma sorted_set_props:
  "sorted_wrt (<) (sorted_set xs) \<and> distinct (sorted_set xs) \<and> set (sorted_set xs) = set xs
   \<and> length (sorted_set xs) = len_set xs"
  by (simp add: sorted_set_def len_set_def)

text \<open>
  C6. For a valid field name \<open>get_field\<close> succeeds. It returns the length of the sorted
  unique values, which are strictly increasing in the lexicographic order of strings, have
  no duplicates and are exactly the collected pieces; it writes them to the listing file
  and prints the number of records that lack the field. Cutting a value at \<open>" & "\<close>
  changes no character: joining the pieces with the separator gives the value back, and
  no piece contains the separator.
\<close>

theorem get_field_sorted_unique:
  assumes "field_name \<in> set valid_fields"
  shows "(\<exists>w'. get_field bib field_name w = Inr (length (sorted_set (field_values field_name bib)), w')
          \<and> files w' (field_name @ ''s.md'') =
               Some (''# List of '' @ field_name @ ''s\<newline>\<newline>''
                 @ ''Please refer to the list of useful acronyms used in deep learning and music: [acronyms.md](acronyms.md).\<newline>\<newline>''
                 @ bullet_lines (sorted_set (field_values field_name bib)))
          \<and> stdout w' = stdout w
                 @ str_nat (length (filter (\<lambda>e. e field_name = None) bib))
                 @ '' entries are missing the '' @ field_name @ '' field.\<newline>''
                 @ str_nat (length (sorted_set (field_values field_name bib)))
                 @ '' unique '' @ field_name @ ''.\<newline>''
                 @ ''List of '' @ field_name @ ''s written in '' @ field_name @ ''s.md\<newline>'')
     \<and> sorted_wrt (<) (sorted_set (field_values field_name bib))
     \<and> distinct (sorted_set (field_values field_name bib))
     \<and> set (sorted_set (field_values field_name bib)) = set (field_values field_name bib)
     \<and> join '' & '' (split_py '' & '' v) = v
     \<and> (\<forall>p\<in>set (split_py '' & '' v). \<not> contains '' & '' p)"
proof -
  have ok: "validate_field field_name = Inr ()"
    using assms by (simp add: validate_field_def Let_def)
  have run: "\<exists>w'. get_field bib field_name w = Inr (length (sorted_set (field_values field_name bib)), w')
          \<and> files w' (field_name @ ''s.md'') =
               Some (''# List of '' @ field_name @ ''s\<newline>\<newline>''
                 @ ''Please refer to the list of useful acronyms used in deep learning and music: [acronyms.md](acronyms.md).\<newline>\<newline>''
                 @ bullet_lines (sorted_set (field_values field_name bib)))
          \<and> stdout w' = stdout w
                 @ str_nat (length (filter (\<lambda>e. e field_name = None) bib))
                 @ '' entries are missing the '' @ field_name @ '' field.\<newline>''
                 @ str_nat (length (sorted_set (field_values field_name bib)))
                 @ '' unique '' @ field_name @ ''.\<newline>''
                 @ ''List of '' @ field_name @ ''s written in '' @ field_name @ ''s.md\<newline>''"
    using sorted_set_props [of "field_values field_name bib"]
    by (simp add: get_field_def ok collect_fields_eq io_simps print_def write_file_def Let_def)
  have pieces: "\<forall>p\<in>set (split_py '' & '' v). \<not> contains '' & '' p"
    using split_py_pieces [of "'' & ''" _ v] by blast
  show ?thesis
    using run sorted_set_props [of "field_values field_name bib"] join_split_py [of "'' & ''" v] pieces
    by blast
qed


theorem get_field_sorted_unique_witness:
  "''task'' \<in> set valid_fields
   \<and> (\<exists>w'. get_field [[''task'' \<mapsto> ''b & a & B''], [''title'' \<mapsto> ''T''], [''task'' \<mapsto> ''a &  c'']] ''task''
               \<lparr>files = Map.empty, stdout = []\<rparr> = Inr (4, w')
          \<and> files w' ''tasks.md'' =
               Some ''# List of tasks\<newline>\<newline>Please refer to the list of useful acronyms used in deep learning and music: [acronyms.md](acronyms.md).\<newline>\<newline>-  c\<newline>- B\<newline>- a\<newline>- b\<newline>''
          \<and> stdout w' = ''1 entries are missing the task field.\<newline>4 unique task.\<newline>List of tasks written in tasks.md\<newline>'')
   \<and> sorted_set (field_values ''task'' [[''task'' \<mapsto> ''b & a & B''], [''title'' \<mapsto> ''T''], [''task'' \<mapsto> ''a &  c'']])
       = ['' c'', ''B'', ''a'', ''b'']
   \<and> split_py '' & '' ''a &  c'' = [''a'', '' c'']"
proof -
  have h: "''task'' \<in> set valid_fields" by (simp add: valid_fields_def)
  have v: "sorted_set (field_values ''task'' [[''task'' \<mapsto> ''b & a & B''], [''title'' \<mapsto> ''T''], [''task'' \<mapsto> ''a &  c'']])
       = ['' c'', ''B'', ''a'', ''b'']"
    by (simp add: field_values_def sorted_set_code)
  have s: "split_py '' & '' ''a &  c'' = [''a'', '' c'']" by simp
  have n1: "str_nat (Suc 0) = ''1''" and n4: "str_nat (Suc (Suc (Suc (Suc 0)))) = ''4''"
    by (simp_all add: str_nat.simps)
  show ?thesis
    using h v s get_field_sorted_unique [OF h,
        of "[[''task'' \<mapsto> ''b & a & B''], [''title'' \<mapsto> ''T''], [''task'' \<mapsto> ''a &  c'']]"
           "\<lparr>files = Map.empty, stdout = []\<rparr>" "''a &  c''"]
    by (simp add: bullet_lines_def n1 n4 eval_nat_numeral)
qed

subsection \<open>articles_per_year\<close>

lemma py_min_Min: "years \<noteq> [] \<Longrightarrow> py_min years = Inr (Min (set years))"
proof (cases years)
  case (Cons a list)
  then show ?thesis using Min.set_eq_fold [of a list] by (simp add: py_min_def)
qed simp

lemma py_max_Max: "years \<noteq> [] \<Longrightarrow> py_max years = Inr (Max (set years))"
proof (cases years)
  case (Cons a list)
  then show ?thesis using Max.set_eq_fold [of a list] by (simp add: py_max_def)
qed simp

lemma collect_years_eq:
  "list_all2 (\<lambda>entry year. \<exists>v. entry ''year'' = Some v \<and> to_int v = Inr year) bib years \<Longrightarrow>
     collect_years to_int bib acc = Inr (acc @ years)"
proof (induction bib arbitrary: years acc)
  case Nil
  then show ?case by simp
next
  case (Cons e bib)
  then obtain y ys where ys: "years = y # ys"
    and e: "\<exists>v. e ''year'' = Some v \<and> to_int v = Inr y"
    and rest: "list_all2 (\<lambda>entry year. \<exists>v. entry ''year'' = Some v \<and> to_int v = Inr year) bib ys"
    by (auto simp: list_all2_Cons1)
  from e Cons.IH [OF rest, of "acc @ [y]"] show ?case
    unfolding ys by auto
qed

lemma collect_years_KeyError:
  assumes "list_all2 (\<lambda>entry year. \<exists>v. entry ''year'' = Some v \<and> to_int v = Inr year) pre years"
    and "e ''year'' = None"
  shows "collect_years to_int (pre @ e # post) acc = Inl (KeyError ''year'')"
  using assms
proof (induction pre arbitrary: years acc)
  case Nil
  then show ?case by simp
next
  case (Cons p pre)
  then obtain y ys where ys: "years = y # ys"
    and p: "\<exists>v. p ''year'' = Some v \<and> to_int v = Inr y"
    and rest: "list_all2 (\<lambda>entry year. \<exists>v. entry ''year'' = Some v \<and> to_int v = Inr year) pre ys"
    by (auto simp: list_all2_Cons1)
  from p Cons.IH [OF rest Cons.prems(2), of "acc @ [y]"] show ?case
    by auto
qed

lemma collect_years_to_int_error:
  assumes "list_all2 (\<lambda>entry year. \<exists>v. entry ''year'' = Some v \<and> to_int v = Inr year) pre years"
    and "e ''year'' = Some v" and "to_int v = Inl err"
  shows "collect_years to_int (pre @ e # post) acc = Inl err"
  using assms
proof (induction pre arbitrary: years acc)
  case Nil
  then show ?case by simp
next
  case (Cons p pre)
  then obtain y ys where ys: "years = y # ys"
    and p: "\<exists>v. p ''year'' = Some v \<and> to_int v = Inr y"
    and rest: "list_all2 (\<lambda>entry year. \<exists>v. entry ''year'' = Some v \<and> to_int v = Inr year) pre ys"
    by (auto simp: list_all2_Cons1)
  from p Cons.IH [OF rest Cons.prems(2,3), of "acc @ [y]"] show ?case
    by auto
qed

lemma bit_length_le: "n < 2 ^ k \<Longrightarrow> bit_length n \<le> k"
proof (induction k arbitrary: n)
  case 0
  then show ?case by (simp add: bit_length.simps)
next
  case (Suc k)
  then have "n div 2 < 2 ^ k" by simp
  then have "bit_length (n div 2) \<le> k" by (rule Suc.IH)
  then show ?case by (subst bit_length.simps) simp
qed

lemma f64_exact_mod:
  assumes "nat \<bar>n\<bar> mod 2 ^ (bit_length (nat \<bar>n\<bar>) - 53) = 0"
  shows "f64 n = n"
proof -
  let ?a = "nat \<bar>n\<bar>"
  let ?k = "bit_length ?a - 53"
  have d: "?a div 2 ^ ?k * 2 ^ ?k = ?a"
    using assms div_mult_mod_eq [of ?a "2 ^ ?k"] by simp
  have "f64 n = sgn n * int (?a div 2 ^ ?k * 2 ^ ?k)"
    using assms by (simp add: f64_def Let_def del: of_nat_mult of_nat_power)
  also have "\<dots> = sgn n * int ?a"
    by (simp only: d)
  finally show ?thesis by (simp add: mult_sgn_abs)
qed

lemma f64_exact: "\<bar>n\<bar> \<le> 2 ^ 53 \<Longrightarrow> f64 n = n"
proof (rule f64_exact_mod)
  assume a: "\<bar>n\<bar> \<le> 2 ^ 53"
  show "nat \<bar>n\<bar> mod 2 ^ (bit_length (nat \<bar>n\<bar>) - 53) = 0"
  proof (cases "\<bar>n\<bar> = 2 ^ 53")
    case True
    then have n: "nat \<bar>n\<bar> = 2 ^ 53" by simp
    have "bit_length (2 ^ 53) \<le> 54"
      by (rule bit_length_le) simp
    then have "bit_length (2 ^ 53) - 53 \<le> 53" by simp
    then have "(2::nat) ^ (bit_length (2 ^ 53) - 53) dvd 2 ^ 53"
      by (rule le_imp_power_dvd)
    then show ?thesis unfolding n by simp
  next
    case False
    with a have "nat \<bar>n\<bar> < 2 ^ 53" by (simp add: nat_less_iff)
    then have "bit_length (nat \<bar>n\<bar>) \<le> 53" by (rule bit_length_le)
    then show ?thesis by simp
  qed
qed

lemma np_arange_exact:
  assumes "\<bar>lo\<bar> < 2 ^ 52" and "\<bar>hi\<bar> < 2 ^ 52" and "lo \<le> hi"
  shows "np_arange lo (f64 (f64 hi + 2)) = [lo..hi + 1]"
proof -
  have p: "(2::int) ^ 53 = 2 * 2 ^ 52" by simp
  have lo: "f64 lo = lo" and hi: "f64 hi = hi"
    using assms p by (intro f64_exact; linarith)+
  have stop: "f64 (hi + 2) = hi + 2" and nxt: "f64 (lo + 1) = lo + 1"
    and len: "f64 (hi + 2 - lo) = hi + 2 - lo" and one: "f64 1 = 1"
    using assms p by (intro f64_exact; linarith)+
  have el: "f64 (lo + f64 (int i)) = lo + int i" if "i < nat (hi + 2 - lo)" for i
  proof -
    from that assms p have "\<bar>int i\<bar> \<le> 2 ^ 53" and "\<bar>lo + int i\<bar> \<le> 2 ^ 53"
      by linarith+
    then show ?thesis by (simp add: f64_exact)
  qed
  show ?thesis
  proof (rule nth_equalityI)
    show "length (np_arange lo (f64 (f64 hi + 2))) = length [lo..hi + 1]"
      using assms by (simp add: np_arange_def Let_def lo hi stop len)
  next
    fix i
    assume "i < length (np_arange lo (f64 (f64 hi + 2)))"
    then have i: "i < nat (hi + 2 - lo)"
      by (simp add: np_arange_def Let_def lo hi stop len)
    then have "lo + int i \<le> hi + 1" by linarith
    then have "[lo..hi + 1] ! i = lo + int i" by simp
    moreover have "np_arange lo (f64 (f64 hi + 2)) ! i = lo + int i"
      using i el [OF i] by (simp add: np_arange_def Let_def lo hi stop len nxt one)
    ultimately show "np_arange lo (f64 (f64 hi + 2)) ! i = [lo..hi + 1] ! i" by simp
  qed
qed

lemma hist_unit_bins:
  assumes "\<forall>x\<in>set xs. lo \<le> x \<and> x \<le> hi" and "map f64 xs = xs"
  shows "hist xs [lo..hi + 1] = (map (count_list xs) [lo..hi], [lo..hi + 1])"
proof -
  define f where "f = (\<lambda>i. length (filter (\<lambda>x. [lo..hi + 1] ! i \<le> x \<and>
                  (if i + 2 = length [lo..hi + 1] then x \<le> [lo..hi + 1] ! (i + 1)
                   else x < [lo..hi + 1] ! (i + 1))) xs))"
  have bin: "f i = count_list xs ([lo..hi] ! i)" if "i < length [lo..hi]" for i
  proof -
    from that have i: "lo + int i \<le> hi" by simp
    then have e: "[lo..hi + 1] ! i = lo + int i" "[lo..hi + 1] ! (i + 1) = lo + int i + 1"
      "[lo..hi] ! i = lo + int i"
      by simp_all
    have "filter (\<lambda>x. [lo..hi + 1] ! i \<le> x \<and>
                  (if i + 2 = length [lo..hi + 1] then x \<le> [lo..hi + 1] ! (i + 1)
                   else x < [lo..hi + 1] ! (i + 1))) xs = filter ((=) (lo + int i)) xs"
      using assms(1) i unfolding e by (intro filter_cong refl) auto
    then show ?thesis
      unfolding f_def by (simp only: e count_list_eq_length_filter)
  qed
  have len: "length [lo..hi + 1] - 1 = length [lo..hi]"
    by simp
  have "map f [0..<length [lo..hi]] = map (count_list xs) [lo..hi]"
    by (rule nth_equalityI) (simp_all add: bin del: length_upto nth_upto)
  then show ?thesis
    unfolding hist_def assms(2) len f_def by (rule arg_cong2 [where f = Pair, OF _ refl])
qed


lemma articles_per_year_exact:
  assumes "list_all2 (\<lambda>entry year. \<exists>v. entry ''year'' = Some v \<and> to_int v = Inr year) bib years"
    and "bib \<noteq> []" and "\<forall>y\<in>set years. \<bar>y\<bar> < 2 ^ 52" and "''fig'' \<in> dirs w"
  shows "\<exists>w'. articles_per_year to_int bib w = Inr ((), w')
       \<and> canvas w' = canvas w @ [(map (count_list years) [Min (set years)..Max (set years)],
                                   [Min (set years)..Max (set years) + 1])]
       \<and> figures w' ''fig/articles_per_year.png'' = Some (canvas w')
       \<and> stdout w' = stdout w
            @ ''Fig. with number of articles per year saved in fig/articles_per_year.png\<newline>''"
proof -
  let ?lo = "Min (set years)" and ?hi = "Max (set years)"
  have years: "years \<noteq> []"
    using assms(1,2) by (auto dest: list_all2_lengthD)
  have c: "collect_years to_int bib [] = Inr years"
    using collect_years_eq [OF assms(1), of "[]"] by simp
  have "?lo \<in> set years" and "?hi \<in> set years"
    using years by simp_all
  then have lo: "\<bar>?lo\<bar> < 2 ^ 52" and hi: "\<bar>?hi\<bar> < 2 ^ 52"
    using assms(3) by blast+
  have le: "?lo \<le> ?hi"
    using years by simp
  have edges: "np_arange ?lo (f64 (f64 ?hi + 2)) = [?lo..?hi + 1]"
    using lo hi le by (rule np_arange_exact)
  have "f64 y = y" if "y \<in> set years" for y
    using that assms(3) by (intro f64_exact) force
  then have cast: "map f64 years = years"
    by (simp add: map_idI)
  have "\<forall>x\<in>set years. ?lo \<le> x \<and> x \<le> ?hi"
    by simp
  then have h: "hist years [?lo..?hi + 1]
      = (map (count_list years) [?lo..?hi], [?lo..?hi + 1])"
    using cast by (rule hist_unit_bins)
  have guard: "\<not> (?lo < - (2 ^ 63) \<or> 2 ^ 63 \<le> ?hi)"
    using lo hi by (simp add: abs_less_iff)
  show ?thesis
    using assms(4) guard
    by (simp add: articles_per_year_def c py_min_Min py_max_Max years edges h Let_def)
qed

lemma articles_per_year_empty: "articles_per_year to_int [] w = Inl ValueError"
  by (simp add: articles_per_year_def py_min_def)

lemma articles_per_year_KeyError:
  assumes "list_all2 (\<lambda>entry year. \<exists>v. entry ''year'' = Some v \<and> to_int v = Inr year) pre years"
    and "e ''year'' = None"
  shows "articles_per_year to_int (pre @ e # post) w = Inl (KeyError ''year'')"
  using collect_years_KeyError [of to_int pre years e post "[]"] assms
  by (simp add: articles_per_year_def)

lemma articles_per_year_to_int_error:
  assumes "list_all2 (\<lambda>entry year. \<exists>v. entry ''year'' = Some v \<and> to_int v = Inr year) pre years"
    and "e ''year'' = Some v" and "to_int v = Inl err"
  shows "articles_per_year to_int (pre @ e # post) w = Inl err"
  using collect_years_to_int_error [of to_int pre years e v err post "[]"] assms
  by (simp add: articles_per_year_def)

lemma articles_per_year_outside:
  assumes "list_all2 (\<lambda>entry year. \<exists>v. entry ''year'' = Some v \<and> to_int v = Inr year) bib years"
    and "bib \<noteq> []" and "Min (set years) < - (2 ^ 63) \<or> 2 ^ 63 \<le> Max (set years)"
  shows "articles_per_year to_int bib w = Inl OutsideModel"
proof -
  have years: "years \<noteq> []"
    using assms(1,2) by (auto dest: list_all2_lengthD)
  have c: "collect_years to_int bib [] = Inr years"
    using collect_years_eq [OF assms(1), of "[]"] by simp
  show ?thesis
    using assms(3) by (simp add: articles_per_year_def c py_min_Min py_max_Max years)
qed

lemma articles_per_year_no_fig_dir:
  assumes "list_all2 (\<lambda>entry year. \<exists>v. entry ''year'' = Some v \<and> to_int v = Inr year) bib years"
    and "bib \<noteq> []" and "- (2 ^ 63) \<le> Min (set years)" and "Max (set years) < 2 ^ 63"
    and "''fig'' \<notin> dirs w"
  shows "articles_per_year to_int bib w = Inl (FileNotFoundError ''fig/articles_per_year.png'')"
proof -
  have years: "years \<noteq> []"
    using assms(1,2) by (auto dest: list_all2_lengthD)
  have c: "collect_years to_int bib [] = Inr years"
    using collect_years_eq [OF assms(1), of "[]"] by simp
  have guard: "\<not> (Min (set years) < - (2 ^ 63) \<or> 2 ^ 63 \<le> Max (set years))"
    using assms(3,4) by linarith
  show ?thesis
    using assms(5)
    by (simp only: articles_per_year_def c py_min_Min [OF years] py_max_Max [OF years] guard
        Let_def sum.case if_False)
      (simp add: Let_def)
qed

lemma f64_values:
  "f64 9007199254740993 = 9007199254740992"
  "f64 9007199254740994 = 9007199254740994"
proof -
  have b: "bit_length 9007199254740993 = 54" "bit_length 9007199254740994 = 54"
    by (simp_all add: bit_length.simps)
  show "f64 9007199254740993 = 9007199254740992" "f64 9007199254740994 = 9007199254740994"
    by (simp_all add: f64_def b Let_def)
qed

text \<open>
  C7 (as amended). Let every record have a year that \<open>to_int\<close> reads, let there be at least
  one record, let every year be below \<open>2 ^ 52\<close> in magnitude, and let the directory \<open>fig\<close>
  exist. Then \<open>articles_per_year\<close> succeeds; the histogram it draws and saves has as bin
  edges the consecutive integers from the least year to the greatest year plus one (bins
  of width one), and the count of the bin that starts at a year is the number of records
  of that year. For the years 2015, 2015 and 2017 the edges are 2015, 2016, 2017, 2018
  and the counts 2, 0, 1.
\<close>

theorem articles_per_year_unit_bins:
  "(list_all2 (\<lambda>entry year. \<exists>v. entry ''year'' = Some v \<and> to_int v = Inr year) bib years
      \<and> bib \<noteq> [] \<and> (\<forall>y\<in>set years. \<bar>y\<bar> < 2 ^ 52) \<and> ''fig'' \<in> dirs w \<longrightarrow>
      (\<exists>w'. articles_per_year to_int bib w = Inr ((), w')
         \<and> canvas w' = canvas w @ [(map (count_list years) [Min (set years)..Max (set years)],
                                     [Min (set years)..Max (set years) + 1])]
         \<and> figures w' ''fig/articles_per_year.png'' = Some (canvas w')
         \<and> stdout w' = stdout w
              @ ''Fig. with number of articles per year saved in fig/articles_per_year.png\<newline>''))
   \<and> (\<exists>w'. articles_per_year py_int
              [[''year'' \<mapsto> ''2015''], [''year'' \<mapsto> ''2015''], [''year'' \<mapsto> ''2017'']]
              \<lparr>files = Map.empty, stdout = [], dirs = {''fig''}, canvas = [], figures = Map.empty\<rparr>
            = Inr ((), w')
         \<and> canvas w' = [([2, 0, 1], [2015, 2016, 2017, 2018])])"
proof (intro conjI impI)
  assume "list_all2 (\<lambda>entry year. \<exists>v. entry ''year'' = Some v \<and> to_int v = Inr year) bib years
      \<and> bib \<noteq> [] \<and> (\<forall>y\<in>set years. \<bar>y\<bar> < 2 ^ 52) \<and> ''fig'' \<in> dirs w"
  then show "\<exists>w'. articles_per_year to_int bib w = Inr ((), w')
         \<and> canvas w' = canvas w @ [(map (count_list years) [Min (set years)..Max (set years)],
                                     [Min (set years)..Max (set years) + 1])]
         \<and> figures w' ''fig/articles_per_year.png'' = Some (canvas w')
         \<and> stdout w' = stdout w
              @ ''Fig. with number of articles per year saved in fig/articles_per_year.png\<newline>''"
    by (intro articles_per_year_exact) simp_all
next
  let ?bib = "[[''year'' \<mapsto> ''2015''], [''year'' \<mapsto> ''2015''], [''year'' \<mapsto> ''2017'']]"
  let ?w = "\<lparr>files = Map.empty, stdout = [], dirs = {''fig''}, canvas = [], figures = Map.empty\<rparr>"
  have p: "py_int ''2015'' = Inr 2015" "py_int ''2017'' = Inr 2017"
    by (simp_all add: py_int_def py_isspace_def py_isdigit_def Let_def)
  have l: "list_all2 (\<lambda>entry year. \<exists>v. entry ''year'' = Some v \<and> py_int v = Inr year)
             ?bib [2015, 2015, 2017]"
    by (simp add: p)
  have u: "[2015..2017] = [2015, 2016, 2017::int]" "[2015..2018] = [2015, 2016, 2017, 2018::int]"
    by (simp_all add: upto_rec1)
  have "\<exists>w'. articles_per_year py_int ?bib ?w = Inr ((), w')
       \<and> canvas w' = canvas ?w @ [(map (count_list [2015, 2015, 2017])
                                       [Min (set [2015, 2015, 2017])..Max (set [2015, 2015, 2017])],
                                     [Min (set [2015, 2015, 2017])..Max (set [2015, 2015, 2017]) + 1])]
       \<and> figures w' ''fig/articles_per_year.png'' = Some (canvas w')
       \<and> stdout w' = stdout ?w
            @ ''Fig. with number of articles per year saved in fig/articles_per_year.png\<newline>''"
    by (rule articles_per_year_exact [OF l]) simp_all
  then obtain w' where "articles_per_year py_int ?bib ?w = Inr ((), w')"
    and "canvas w' = [([2, 0, 1], [2015, 2016, 2017, 2018])]"
    by (auto simp: u numeral_2_eq_2)
  then show "\<exists>w'. articles_per_year py_int ?bib ?w = Inr ((), w')
         \<and> canvas w' = [([2, 0, 1], [2015, 2016, 2017, 2018])]"
    by blast
qed

theorem articles_per_year_unit_bins_witness:
  "py_int '' 2016'' = Inr 2016 \<and> py_int ''2014'' = Inr 2014 \<and> py_int ''2_016'' = Inr 2016
   \<and> (\<exists>w'. articles_per_year py_int
              [[''year'' \<mapsto> '' 2016''], [''year'' \<mapsto> ''2014''], [''year'' \<mapsto> ''2_016'']]
              \<lparr>files = Map.empty, stdout = [], dirs = {''fig''}, canvas = [], figures = Map.empty\<rparr>
            = Inr ((), w')
         \<and> canvas w' = [([1, 0, 2], [2014, 2015, 2016, 2017])]
         \<and> figures w' ''fig/articles_per_year.png'' = Some [([1, 0, 2], [2014, 2015, 2016, 2017])])"
proof -
  let ?bib = "[[''year'' \<mapsto> '' 2016''], [''year'' \<mapsto> ''2014''], [''year'' \<mapsto> ''2_016'']]"
  let ?w = "\<lparr>files = Map.empty, stdout = [], dirs = {''fig''}, canvas = [], figures = Map.empty\<rparr>"
  have p: "py_int '' 2016'' = Inr 2016" "py_int ''2014'' = Inr 2014" "py_int ''2_016'' = Inr 2016"
    by (simp_all add: py_int_def py_isspace_def py_isdigit_def Let_def)
  have l: "list_all2 (\<lambda>entry year. \<exists>v. entry ''year'' = Some v \<and> py_int v = Inr year)
             ?bib [2016, 2014, 2016]"
    by (simp add: p)
  have u: "[2014..2016] = [2014, 2015, 2016::int]" "[2014..2017] = [2014, 2015, 2016, 2017::int]"
    by (simp_all add: upto_rec1)
  have h: "list_all2 (\<lambda>entry year. \<exists>v. entry ''year'' = Some v \<and> py_int v = Inr year)
             ?bib [2016, 2014, 2016]
      \<and> ?bib \<noteq> [] \<and> (\<forall>y\<in>set [2016, 2014, 2016::int]. \<bar>y\<bar> < 2 ^ 52) \<and> ''fig'' \<in> dirs ?w"
    using l by simp
  from articles_per_year_unit_bins [of py_int ?bib "[2016, 2014, 2016]" ?w] h
  obtain w' where run: "articles_per_year py_int ?bib ?w = Inr ((), w')"
    and c: "canvas w' = [([1, 0, 2], [2014, 2015, 2016, 2017])]"
    and f: "figures w' ''fig/articles_per_year.png'' = Some (canvas w')"
    by (auto simp: u numeral_2_eq_2)
  from f have "figures w' ''fig/articles_per_year.png'' = Some [([1, 0, 2], [2014, 2015, 2016, 2017])]"
    by (simp only: c)
  with p run c show ?thesis by blast
qed

text \<open>
  C7 as stated fails for years from \<open>2 ^ 53\<close>, where the floating-point edges are
  rounded: for the single year \<open>2 ^ 53 + 1\<close> the two edges are both \<open>2 ^ 53\<close>, a bin of
  width zero that starts below the year.
\<close>

theorem articles_per_year_float_counterexample:
  "py_int ''9007199254740993'' = Inr 9007199254740993
   \<and> (\<exists>w' counts. articles_per_year py_int [[''year'' \<mapsto> ''9007199254740993'']]
              \<lparr>files = Map.empty, stdout = [], dirs = {''fig''}, canvas = [], figures = Map.empty\<rparr>
            = Inr ((), w')
         \<and> canvas w' = [(counts, [9007199254740992, 9007199254740992])])"
proof -
  have p: "py_int ''9007199254740993'' = Inr 9007199254740993"
    by (simp add: py_int_def py_isspace_def py_isdigit_def Let_def)
  have z: "f64 2 = 2" "f64 0 = 0"
    by (simp_all add: f64_exact)
  have e: "np_arange 9007199254740993 (f64 (f64 9007199254740993 + 2))
             = [9007199254740992, 9007199254740992]"
    by (simp add: np_arange_def f64_values z Let_def upt_rec)
  have h: "hist [9007199254740993] [9007199254740992, 9007199254740992]
             = ([1], [9007199254740992, 9007199254740992])"
    by (simp add: hist_def f64_values)
  show ?thesis
    by (simp add: p articles_per_year_def py_min_def py_max_def e h Let_def)
qed

subsection \<open>generate_summary_table: the rewrite of README.md\<close>

lemma concat_file_lines: "concat (file_lines doc) = doc"
  by (induction doc) (auto split: list.splits)

lemma concat_read_lines: "concat (read_lines raw) = universal_newlines raw"
  by (simp add: read_lines_def concat_file_lines)

lemma universal_newlines_example:
  "universal_newlines (''a'' @ [CHR 0x0D, CHR ''\<newline>''] @ ''b'' @ [CHR 0x0D] @ ''c''
       @ [CHR 0x0D, CHR 0x0D, CHR ''\<newline>'', CHR 0x0D])
     = ''a\<newline>b\<newline>c\<newline>\<newline>\<newline>''"
  by simp

lemma universal_newlines_CR_free: "CHR 0x0D \<notin> set (universal_newlines raw)"
  by (induction raw rule: universal_newlines.induct) auto

lemma universal_newlines_no_CR: "CHR 0x0D \<notin> set raw \<Longrightarrow> universal_newlines raw = raw"
  by (induction raw rule: universal_newlines.induct) auto

lemma contains_take2: "contains ''| '' (take 2 line) \<longleftrightarrow> take 2 line = ''| ''"
proof (cases line)
  case Nil
  then show ?thesis by simp
next
  case (Cons a as)
  then show ?thesis by (cases as) auto
qed

lemma take2_short: "take 2 line = ''| '' \<Longrightarrow> \<not> 2 < length line \<Longrightarrow> line = ''| ''"
  by (metis take_all_iff not_less)

lemma is_table_line_eq:
  "is_table_line line = (if line = ''| '' then Inl IndexError else Inr (table_line line))"
  using take2_short [of line]
  by (auto simp: is_table_line_def contains_take2 table_line_def)

lemma rewrite_line_error: "rewrite_line fr ''| '' st = Inl IndexError"
  by (simp add: rewrite_line_def is_table_line_eq split: prod.splits)

lemma rewrite_line_eq:
  "line \<noteq> ''| '' \<Longrightarrow>
     rewrite_line fr line (readme, pasted) =
       Inr (if table_line line then (if pasted then readme else readme @ articles fr, True)
            else (readme @ count_line fr line, pasted))"
  by (simp add: rewrite_line_def is_table_line_eq count_line_def)


lemma rewrite_loop_error: "''| '' \<in> set ls \<Longrightarrow> rewrite_loop fr ls st = Inl IndexError"
proof (induction ls arbitrary: st)
  case Nil
  then show ?case by simp
next
  case (Cons l ls)
  show ?case
  proof (cases "l = ''| ''")
    case True
    then show ?thesis by (simp add: rewrite_line_error)
  next
    case False
    with Cons show ?thesis
      by (cases st) (simp add: rewrite_line_eq)
  qed
qed

lemma rewrite_loop_segments:
  "''| '' \<notin> set ls \<Longrightarrow>
     rewrite_loop fr ls (readme, pasted) =
       Inr (readme @ concat (segments fr pasted ls), pasted \<or> (\<exists>l\<in>set ls. table_line l))"
  by (induction ls arbitrary: readme pasted) (auto simp: rewrite_line_eq)

lemma rewrite_loop_append:
  "rewrite_loop fr (xs @ ys) st =
     (case rewrite_loop fr xs st of Inl e \<Rightarrow> Inl e | Inr st' \<Rightarrow> rewrite_loop fr ys st')"
  by (induction xs arbitrary: st) (auto split: sum.splits)

lemma length_segments: "length (segments fr pasted ls) = length ls"
  by (induction ls arbitrary: pasted) auto

lemma segments_nth:
  "i < length ls \<Longrightarrow> \<not> table_line (ls ! i) \<Longrightarrow> segments fr pasted ls ! i = count_line fr (ls ! i)"
proof (induction ls arbitrary: pasted i)
  case Nil
  then show ?case by simp
next
  case (Cons l ls)
  then show ?case by (cases i) auto
qed

lemma segments_pasted:
  "segments fr True ls = map (\<lambda>l. if table_line l then [] else count_line fr l) ls"
  by (induction ls) auto

lemma segments_no_table:
  "\<forall>l\<in>set ls. \<not> table_line l \<Longrightarrow> segments fr pasted ls = map (count_line fr) ls"
  by (induction ls) auto

lemma concat_skip_table:
  "concat (map (\<lambda>l. if table_line l then [] else count_line fr l) ls)
     = concat (map (count_line fr) (filter (\<lambda>l. \<not> table_line l) ls))"
  by (induction ls) auto

lemma rewrite_readme_eq:
  "files w ''README.md'' = Some doc \<Longrightarrow>
     rewrite_readme fr w =
       (case rewrite_loop fr (read_lines doc) ([], False) of
          Inl e \<Rightarrow> Inl e
        | Inr (readme, p) \<Rightarrow>
            Inr ((), w\<lparr>files := (files w)(''README.md'' \<mapsto> readme),
                       stdout := stdout w @ ''New ReadMe generated\<newline>''\<rparr>))"
  by (simp add: rewrite_readme_def io_simps read_file_def write_file_def print_def Let_def
      split: sum.splits prod.splits)

lemma count_line_papers:
  "contains ''papers referenced'' line \<Longrightarrow>
     count_line fr line =
       ''- '' @ nb_articles fr @ '' papers referenced. See the details in [dl4m.bib](dl4m.bib).\<newline>''"
  by (simp add: count_line_def)

lemma is_table_line_True: "is_table_line l = Inr True \<longleftrightarrow> table_line l"
  by (auto simp: is_table_line_eq table_line_def)

lemma is_table_line_False: "is_table_line l = Inr False \<longleftrightarrow> l \<noteq> ''| '' \<and> \<not> table_line l"
  by (auto simp: is_table_line_eq)

lemma is_table_line_raises: "is_table_line l = Inl IndexError \<longleftrightarrow> l = ''| ''"
  by (auto simp: is_table_line_eq)

lemma count_line_no_anchor: "matches_no_anchor line \<Longrightarrow> count_line fr line = line"
  by (simp add: count_line_def matches_no_anchor_def)

lemma count_line_articles: "count_line (fr\<lparr>articles := x\<rparr>) l = count_line fr l"
  by (simp add: count_line_def)

lemma rewrite_loop_pasted:
  "rewrite_loop fr ls (readme, True) =
     (if ''| '' \<in> set ls then Inl IndexError
      else Inr (readme @ concat (map (count_line fr) (filter (\<lambda>l. \<not> table_line l) ls)), True))"
  by (simp add: rewrite_loop_error rewrite_loop_segments segments_pasted concat_skip_table)

text \<open>
  C1 (as amended). Let README.md hold \<open>doc\<close>, and let no line read from it be just the
  two characters \<open>"| "\<close>. Then the rewrite succeeds, and the new README is the
  concatenation of one piece for each line read, in order. The lines read are those of
  \<open>doc\<close> with every line ending read as a line feed: they are the lines of \<open>doc\<close> itself
  when it holds no carriage return. The piece of a line that contains
  \<open>papers referenced\<close> and is not a table line is the new count followed by
  \<open>papers referenced.\<close> and the link to dl4m.bib; the piece of a line that matches none
  of the six patterns is the line as read.
\<close>

theorem rewrite_readme_papers_line:
  assumes "files w ''README.md'' = Some doc" and "''| '' \<notin> set (read_lines doc)"
  shows "concat (read_lines doc) = universal_newlines doc
     \<and> (CHR 0x0D \<notin> set doc \<longrightarrow> universal_newlines doc = doc)
     \<and> (\<exists>w' segs. rewrite_readme fr w = Inr ((), w')
          \<and> files w' ''README.md'' = Some (concat segs)
          \<and> length segs = length (read_lines doc)
          \<and> (\<forall>i<length segs.
                (contains ''papers referenced'' (read_lines doc ! i)
                   \<and> is_table_line (read_lines doc ! i) = Inr False
                   \<longrightarrow> segs ! i = ''- '' @ nb_articles fr
                          @ '' papers referenced. See the details in [dl4m.bib](dl4m.bib).\<newline>'')
              \<and> (matches_no_anchor (read_lines doc ! i) \<longrightarrow> segs ! i = read_lines doc ! i)))"
proof (intro conjI)
  show "concat (read_lines doc) = universal_newlines doc" by (rule concat_read_lines)
next
  show "CHR 0x0D \<notin> set doc \<longrightarrow> universal_newlines doc = doc"
    by (simp add: universal_newlines_no_CR)
next
  let ?segs = "segments fr False (read_lines doc)"
  have run: "rewrite_readme fr w =
      Inr ((), w\<lparr>files := (files w)(''README.md'' \<mapsto> concat ?segs),
                 stdout := stdout w @ ''New ReadMe generated\<newline>''\<rparr>)"
    using assms by (simp add: rewrite_readme_eq rewrite_loop_segments)
  have each: "(contains ''papers referenced'' (read_lines doc ! i)
                   \<and> is_table_line (read_lines doc ! i) = Inr False
                   \<longrightarrow> ?segs ! i = ''- '' @ nb_articles fr
                          @ '' papers referenced. See the details in [dl4m.bib](dl4m.bib).\<newline>'')
              \<and> (matches_no_anchor (read_lines doc ! i) \<longrightarrow> ?segs ! i = read_lines doc ! i)"
    if "i < length ?segs" for i
  proof -
    from that have i: "i < length (read_lines doc)" by (simp add: length_segments)
    show ?thesis
      using segments_nth [OF i, of fr False]
      by (auto simp: count_line_papers count_line_no_anchor matches_no_anchor_def is_table_line_False)
  qed
  show "\<exists>w' segs. rewrite_readme fr w = Inr ((), w')
          \<and> files w' ''README.md'' = Some (concat segs)
          \<and> length segs = length (read_lines doc)
          \<and> (\<forall>i<length segs.
                (contains ''papers referenced'' (read_lines doc ! i)
                   \<and> is_table_line (read_lines doc ! i) = Inr False
                   \<longrightarrow> segs ! i = ''- '' @ nb_articles fr
                          @ '' papers referenced. See the details in [dl4m.bib](dl4m.bib).\<newline>'')
              \<and> (matches_no_anchor (read_lines doc ! i) \<longrightarrow> segs ! i = read_lines doc ! i))"
    using run each length_segments [of fr False "read_lines doc"]
    by (intro exI [of _ "w\<lparr>files := (files w)(''README.md'' \<mapsto> concat ?segs),
                 stdout := stdout w @ ''New ReadMe generated\<newline>''\<rparr>"] exI [of _ ?segs]) simp
qed

theorem rewrite_readme_papers_line_witness:
  "files \<lparr>files = [''README.md'' \<mapsto> (''# Title'' @ [CHR 0x0D, CHR ''\<newline>''] @ ''- 10 papers referenced. See details.\<newline>Some text\<newline>'')],
          stdout = []\<rparr> ''README.md''
     = Some (''# Title'' @ [CHR 0x0D, CHR ''\<newline>''] @ ''- 10 papers referenced. See details.\<newline>Some text\<newline>'')
   \<and> ''| '' \<notin> set (read_lines (''# Title'' @ [CHR 0x0D, CHR ''\<newline>''] @ ''- 10 papers referenced. See details.\<newline>Some text\<newline>''))
   \<and> (\<exists>w'. rewrite_readme
          \<lparr>nb_articles = ''15'', nb_authors = ''4'', nb_tasks = ''3'', nb_datasets = ''2'',
           nb_archi = ''1'', articles = ''| T | No |\<newline>''\<rparr>
          \<lparr>files = [''README.md'' \<mapsto> (''# Title'' @ [CHR 0x0D, CHR ''\<newline>''] @ ''- 10 papers referenced. See details.\<newline>Some text\<newline>'')],
           stdout = []\<rparr> = Inr ((), w')
        \<and> files w' ''README.md''
            = Some ''# Title\<newline>- 15 papers referenced. See the details in [dl4m.bib](dl4m.bib).\<newline>Some text\<newline>'')"
proof -
  let ?doc = "''# Title'' @ [CHR 0x0D, CHR ''\<newline>''] @ ''- 10 papers referenced. See details.\<newline>Some text\<newline>''"
  let ?w = "\<lparr>files = [''README.md'' \<mapsto> ?doc], stdout = []\<rparr>"
  let ?fr = "\<lparr>nb_articles = ''15'', nb_authors = ''4'', nb_tasks = ''3'', nb_datasets = ''2'',
           nb_archi = ''1'', articles = ''| T | No |\<newline>''\<rparr>"
  have h1: "files ?w ''README.md'' = Some ?doc" by simp
  have fl: "read_lines ?doc = [''# Title\<newline>'', ''- 10 papers referenced. See details.\<newline>'', ''Some text\<newline>'']"
    by (simp add: read_lines_def)
  have h2: "''| '' \<notin> set (read_lines ?doc)" unfolding fl by simp
  from rewrite_readme_papers_line [OF h1 h2, of ?fr]
  obtain w' segs where run: "rewrite_readme ?fr ?w = Inr ((), w')"
    and out: "files w' ''README.md'' = Some (concat segs)"
    and len: "length segs = length (read_lines ?doc)"
    and each: "\<forall>i<length segs.
                (contains ''papers referenced'' (read_lines ?doc ! i)
                   \<and> is_table_line (read_lines ?doc ! i) = Inr False
                   \<longrightarrow> segs ! i = ''- '' @ nb_articles ?fr
                          @ '' papers referenced. See the details in [dl4m.bib](dl4m.bib).\<newline>'')
              \<and> (matches_no_anchor (read_lines ?doc ! i) \<longrightarrow> segs ! i = read_lines ?doc ! i)"
    by blast
  from len obtain a b c where segs: "segs = [a, b, c]"
    unfolding fl by (auto simp: length_Suc_conv)
  have s0: "a = ''# Title\<newline>''"
    using each [rule_format, of 0] unfolding fl segs
    by (simp add: matches_no_anchor_def is_table_line_def)
  have s1: "b = ''- 15 papers referenced. See the details in [dl4m.bib](dl4m.bib).\<newline>''"
    using each [rule_format, of 1] unfolding fl segs
    by (simp add: is_table_line_def)
  have s2: "c = ''Some text\<newline>''"
    using each [rule_format, of 2] unfolding fl segs
    by (simp add: matches_no_anchor_def is_table_line_def)
  have "concat segs = ''# Title\<newline>- 15 papers referenced. See the details in [dl4m.bib](dl4m.bib).\<newline>Some text\<newline>''"
    unfolding segs s0 s1 s2 by simp
  with run out h1 h2 show ?thesis by simp
qed

text \<open>
  C1 as stated fails in two ways. A line that contains \<open>papers referenced\<close> and is a
  table line is replaced by the articles, since the table test comes first, and no count
  line is written. A line that matches no anchor and ends with a carriage return and a
  line feed is written back with a line feed alone.
\<close>

theorem rewrite_readme_counterexample:
  "contains ''papers referenced'' ''| 10 papers referenced |\<newline>''
   \<and> rewrite_readme
        \<lparr>nb_articles = ''15'', nb_authors = ''4'', nb_tasks = ''3'', nb_datasets = ''2'',
         nb_archi = ''1'', articles = ''| T | No |\<newline>''\<rparr>
        \<lparr>files = [''README.md'' \<mapsto> ''| 10 papers referenced |\<newline>''], stdout = []\<rparr>
      = Inr ((), \<lparr>files = [''README.md'' \<mapsto> ''| T | No |\<newline>''],
                  stdout = ''New ReadMe generated\<newline>''\<rparr>)
   \<and> \<not> contains ''papers referenced'' ''| T | No |\<newline>''
   \<and> matches_no_anchor (''Some text'' @ [CHR 0x0D, CHR ''\<newline>''])
   \<and> rewrite_readme
        \<lparr>nb_articles = ''15'', nb_authors = ''4'', nb_tasks = ''3'', nb_datasets = ''2'',
         nb_archi = ''1'', articles = ''| T | No |\<newline>''\<rparr>
        \<lparr>files = [''README.md'' \<mapsto> ''Some text'' @ [CHR 0x0D, CHR ''\<newline>'']], stdout = []\<rparr>
      = Inr ((), \<lparr>files = [''README.md'' \<mapsto> ''Some text\<newline>''],
                  stdout = ''New ReadMe generated\<newline>''\<rparr>)
   \<and> ''Some text'' @ [CHR 0x0D, CHR ''\<newline>''] \<noteq> ''Some text\<newline>''"
  by (simp add: rewrite_readme_def io_simps read_file_def write_file_def print_def
      rewrite_line_def is_table_line_def Let_def read_lines_def matches_no_anchor_def)

lemma count_line_articles_fun: "count_line (fr\<lparr>articles := x\<rparr>) = count_line fr"
  by (rule ext) (rule count_line_articles)

lemma rewrite_loop_articles_pasted:
  "rewrite_loop (fr\<lparr>articles := x\<rparr>) ls (readme, True) = rewrite_loop fr ls (readme, True)"
  by (simp add: rewrite_loop_pasted count_line_articles_fun)

lemma rewrite_loop_no_table:
  "\<forall>l\<in>set ls. is_table_line l = Inr False \<Longrightarrow>
     rewrite_loop fr ls (readme, pasted) = Inr (readme @ concat (map (count_line fr) ls), pasted)"
proof -
  assume a: "\<forall>l\<in>set ls. is_table_line l = Inr False"
  then have "''| '' \<notin> set ls" and "\<forall>l\<in>set ls. \<not> table_line l"
    by (auto simp: is_table_line_False)
  then show ?thesis
    by (simp add: rewrite_loop_segments segments_no_table)
qed

text \<open>
  C2. The table test succeeds on a line exactly when its first two characters are
  \<open>"| "\<close> and it has a third character that is not a space. When the lines before the
  first table line are not table lines, the loop reaches the lines after it with the
  articles appended once, in place of that line, and with the flag set; from a state with
  the flag set, and on lines none of which is a table line, what the loop returns does
  not depend on the articles at all: they are appended at most once in a run.
\<close>

theorem table_anchor_spliced_once:
  "(is_table_line line = Inr True)
      = (take 2 line = ''| '' \<and> 2 < length line \<and> line ! 2 \<noteq> CHR '' '')
   \<and> ((\<forall>l\<in>set pre. is_table_line l = Inr False) \<and> is_table_line a = Inr True \<longrightarrow>
        rewrite_loop fr (pre @ a # post) ([], False)
          = rewrite_loop fr post (concat (map (count_line fr) pre) @ articles fr, True))
   \<and> rewrite_loop (fr\<lparr>articles := x\<rparr>) post (readme, True) = rewrite_loop fr post (readme, True)
   \<and> ((\<forall>l\<in>set pre. is_table_line l = Inr False) \<longrightarrow>
        rewrite_loop (fr\<lparr>articles := x\<rparr>) pre ([], False) = rewrite_loop fr pre ([], False))"
proof (intro conjI impI)
  show "(is_table_line line = Inr True)
      = (take 2 line = ''| '' \<and> 2 < length line \<and> line ! 2 \<noteq> CHR '' '')"
    by (simp add: is_table_line_True table_line_def)
next
  assume a: "(\<forall>l\<in>set pre. is_table_line l = Inr False) \<and> is_table_line a = Inr True"
  then have pre: "rewrite_loop fr pre ([], False) = Inr (concat (map (count_line fr) pre), False)"
    using rewrite_loop_no_table [of pre fr "[]" False] by simp
  have "rewrite_line fr a (concat (map (count_line fr) pre), False)
          = Inr (concat (map (count_line fr) pre) @ articles fr, True)"
    using a by (simp add: rewrite_line_def)
  then show "rewrite_loop fr (pre @ a # post) ([], False)
          = rewrite_loop fr post (concat (map (count_line fr) pre) @ articles fr, True)"
    by (simp add: rewrite_loop_append pre)
next
  show "rewrite_loop (fr\<lparr>articles := x\<rparr>) post (readme, True) = rewrite_loop fr post (readme, True)"
    by (rule rewrite_loop_articles_pasted)
next
  assume "\<forall>l\<in>set pre. is_table_line l = Inr False"
  then show "rewrite_loop (fr\<lparr>articles := x\<rparr>) pre ([], False) = rewrite_loop fr pre ([], False)"
    by (simp add: rewrite_loop_no_table count_line_articles_fun)
qed

theorem table_anchor_spliced_once_witness:
  "is_table_line ''# Title\<newline>'' = Inr False
   \<and> is_table_line ''| Articles | Code |\<newline>'' = Inr True
   \<and> rewrite_loop
        \<lparr>nb_articles = ''15'', nb_authors = ''4'', nb_tasks = ''3'', nb_datasets = ''2'',
         nb_archi = ''1'', articles = ''| T | No |\<newline>''\<rparr>
        ([''# Title\<newline>''] @ ''| Articles | Code |\<newline>'' # [''| old | row |\<newline>'', ''tail\<newline>''])
        ([], False)
      = Inr (''# Title\<newline>| T | No |\<newline>tail\<newline>'', True)"
proof -
  let ?fr = "\<lparr>nb_articles = ''15'', nb_authors = ''4'', nb_tasks = ''3'', nb_datasets = ''2'',
         nb_archi = ''1'', articles = ''| T | No |\<newline>''\<rparr>"
  have h1: "\<forall>l\<in>set [''# Title\<newline>'']. is_table_line l = Inr False"
    by (simp add: is_table_line_def)
  have h2: "is_table_line ''| Articles | Code |\<newline>'' = Inr True"
    by (simp add: is_table_line_def)
  have rest: "rewrite_loop ?fr [''| old | row |\<newline>'', ''tail\<newline>'']
         (concat (map (count_line ?fr) [''# Title\<newline>'']) @ articles ?fr, True)
       = Inr (''# Title\<newline>| T | No |\<newline>tail\<newline>'', True)"
    by (simp add: rewrite_line_def is_table_line_def count_line_def)
  show ?thesis
    using h1 h2 rest table_anchor_spliced_once
      [of "''| Articles | Code |\<newline>''" "[''# Title\<newline>'']" "''| Articles | Code |\<newline>''" ?fr
          "[''| old | row |\<newline>'', ''tail\<newline>'']"]
    by simp
qed

text \<open>
  C10. When README.md is rewritten (no line makes the loop raise), the table lines after
  the first one leave nothing in the new README: it consists of the pieces of the lines
  before the first table line, the articles, and the pieces of those later lines that
  are not table lines. With the flag set, a table line leaves the text built so far as
  it is.
\<close>

theorem later_table_lines_omitted:
  assumes "files w ''README.md'' = Some doc"
    and "read_lines doc = pre @ a # post"
    and "\<forall>l\<in>set pre. is_table_line l = Inr False"
    and "is_table_line a = Inr True"
    and "\<forall>l\<in>set post. is_table_line l \<noteq> Inl IndexError"
  shows "(\<exists>w'. rewrite_readme fr w = Inr ((), w')
           \<and> files w' ''README.md'' =
               Some (concat (map (count_line fr) pre) @ articles fr
                     @ concat (map (count_line fr) (filter (\<lambda>l. is_table_line l \<noteq> Inr True) post))))
     \<and> (is_table_line l = Inr True \<longrightarrow> rewrite_line fr l (readme, True) = Inr (readme, True))"
proof
  have post: "''| '' \<notin> set post"
    using assms(5) by (auto simp: is_table_line_raises)
  have f: "filter (\<lambda>l. is_table_line l \<noteq> Inr True) post = filter (\<lambda>l. \<not> table_line l) post"
    by (simp add: is_table_line_True)
  have pre: "rewrite_loop fr pre ([], False) = Inr (concat (map (count_line fr) pre), False)"
    using assms(3) rewrite_loop_no_table [of pre fr "[]" False] by simp
  have a: "rewrite_line fr a (concat (map (count_line fr) pre), False)
          = Inr (concat (map (count_line fr) pre) @ articles fr, True)"
    using assms(4) by (simp add: rewrite_line_def)
  have "rewrite_loop fr (read_lines doc) ([], False)
      = Inr (concat (map (count_line fr) pre) @ articles fr
             @ concat (map (count_line fr) (filter (\<lambda>l. is_table_line l \<noteq> Inr True) post)), True)"
    unfolding assms(2) f
    by (simp add: rewrite_loop_append pre a rewrite_loop_pasted post)
  then show "\<exists>w'. rewrite_readme fr w = Inr ((), w')
           \<and> files w' ''README.md'' =
               Some (concat (map (count_line fr) pre) @ articles fr
                     @ concat (map (count_line fr) (filter (\<lambda>l. is_table_line l \<noteq> Inr True) post)))"
    using assms(1) by (simp add: rewrite_readme_eq)
next
  show "is_table_line l = Inr True \<longrightarrow> rewrite_line fr l (readme, True) = Inr (readme, True)"
    by (simp add: rewrite_line_def)
qed


theorem later_table_lines_omitted_witness:
  "read_lines ''# Title\<newline>| Articles | Code |\<newline>|--|--|\<newline>| old | row |\<newline>tail\<newline>''
     = [''# Title\<newline>''] @ ''| Articles | Code |\<newline>'' # [''|--|--|\<newline>'', ''| old | row |\<newline>'', ''tail\<newline>'']
   \<and> is_table_line ''| old | row |\<newline>'' = Inr True
   \<and> (\<exists>w'. rewrite_readme
          \<lparr>nb_articles = ''15'', nb_authors = ''4'', nb_tasks = ''3'', nb_datasets = ''2'',
           nb_archi = ''1'', articles = ''| T | No |\<newline>''\<rparr>
          \<lparr>files = [''README.md'' \<mapsto>
              ''# Title\<newline>| Articles | Code |\<newline>|--|--|\<newline>| old | row |\<newline>tail\<newline>''],
           stdout = []\<rparr> = Inr ((), w')
        \<and> files w' ''README.md'' = Some ''# Title\<newline>| T | No |\<newline>|--|--|\<newline>tail\<newline>'')"
proof -
  let ?doc = "''# Title\<newline>| Articles | Code |\<newline>|--|--|\<newline>| old | row |\<newline>tail\<newline>''"
  let ?w = "\<lparr>files = [''README.md'' \<mapsto> ?doc], stdout = []\<rparr>"
  let ?fr = "\<lparr>nb_articles = ''15'', nb_authors = ''4'', nb_tasks = ''3'', nb_datasets = ''2'',
           nb_archi = ''1'', articles = ''| T | No |\<newline>''\<rparr>"
  let ?post = "[''|--|--|\<newline>'', ''| old | row |\<newline>'', ''tail\<newline>'']"
  have h1: "files ?w ''README.md'' = Some ?doc" by simp
  have h2: "read_lines ?doc = [''# Title\<newline>''] @ ''| Articles | Code |\<newline>'' # ?post"
    by (simp add: read_lines_def)
  have h3: "\<forall>l\<in>set [''# Title\<newline>'']. is_table_line l = Inr False"
    by (simp add: is_table_line_def)
  have h4: "is_table_line ''| Articles | Code |\<newline>'' = Inr True"
    by (simp add: is_table_line_def)
  have h5: "\<forall>l\<in>set ?post. is_table_line l \<noteq> Inl IndexError"
    by (simp add: is_table_line_def)
  have old: "is_table_line ''| old | row |\<newline>'' = Inr True"
    by (simp add: is_table_line_def)
  have out: "concat (map (count_line ?fr) [''# Title\<newline>'']) @ articles ?fr
        @ concat (map (count_line ?fr) (filter (\<lambda>l. is_table_line l \<noteq> Inr True) ?post))
      = ''# Title\<newline>| T | No |\<newline>|--|--|\<newline>tail\<newline>''"
    by (simp add: is_table_line_def count_line_def)
  from later_table_lines_omitted [OF h1 h2 h3 h4 h5, of ?fr]
  have "\<exists>w'. rewrite_readme ?fr ?w = Inr ((), w')
        \<and> files w' ''README.md'' = Some ''# Title\<newline>| T | No |\<newline>|--|--|\<newline>tail\<newline>''"
    unfolding out by blast
  with h2 old show ?thesis by blast
qed

lemma str_nat_digits: "str_nat n \<noteq> [] \<and> set (str_nat n) \<subseteq> set ''0123456789''"
proof (induction n rule: str_nat.induct)
  case (1 n)
  have d: "''0123456789'' ! k \<in> set ''0123456789''" if "k < 10" for k
    using that by (intro nth_mem) simp
  show ?case
  proof (cases "n < 10")
    case True
    then show ?thesis
      using d [of n] by (subst (1 2) str_nat.simps) simp
  next
    case False
    then show ?thesis
      using 1 d [of "n mod 10"] by (subst (1 2) str_nat.simps) simp
  qed
qed

lemma sublist_through_digits:
  assumes "sublist s (a @ d @ b)" and "d \<noteq> []" and "set d \<inter> set s = {}" and "s \<noteq> []"
  shows "sublist s a \<or> sublist s b"
proof -
  have inner: "sublist s b" if "sublist s (d @ b)"
  proof -
    from that consider "sublist s d" | "sublist s b"
      | s1 s2 where "s = s1 @ s2" "suffix s1 d" "prefix s2 b"
      unfolding sublist_append by blast
    then show ?thesis
    proof cases
      case 1
      then have "set s \<subseteq> set d" by (rule set_mono_sublist)
      with assms(3,4) show ?thesis by (cases s) auto
    next
      case 2
      then show ?thesis .
    next
      case 3
      from 3(2) have "set s1 \<subseteq> set d" by (rule set_mono_suffix)
      with assms(3) 3(1) have "s1 = []" by (cases s1) auto
      with 3 show ?thesis by (simp add: prefix_imp_sublist)
    qed
  qed
  from assms(1) consider "sublist s a" | "sublist s (d @ b)"
    | s1 s2 where "s = s1 @ s2" "suffix s1 a" "prefix s2 (d @ b)"
    unfolding sublist_append by blast
  then show ?thesis
  proof cases
    case 1
    then show ?thesis by simp
  next
    case 2
    then show ?thesis using inner by simp
  next
    case 3
    show ?thesis
    proof (cases s2)
      case Nil
      with 3 show ?thesis by (simp add: suffix_imp_sublist)
    next
      case (Cons x xs)
      obtain y ys where d: "d = y # ys" using assms(2) by (cases d) auto
      from 3(3) have "x = y" unfolding Cons d by simp
      with assms(3) 3(1) show ?thesis unfolding Cons d by auto
    qed
  qed
qed

lemma count_text_lacks:
  assumes "s \<noteq> []" and "set s \<inter> set ''0123456789'' = {}"
    and "\<not> contains s a" and "\<not> contains s b"
  shows "\<not> contains s (a @ str_nat n @ b)"
proof
  assume "contains s (a @ str_nat n @ b)"
  then have "sublist s (a @ str_nat n @ b)" by (simp add: contains_iff_sublist)
  moreover have "set (str_nat n) \<inter> set s = {}"
    using str_nat_digits [of n] assms(2) by blast
  ultimately have "sublist s a \<or> sublist s b"
    using str_nat_digits [of n] assms(1) by (intro sublist_through_digits) auto
  with assms(3,4) show False by (simp add: contains_iff_sublist)
qed


lemma count_lines_keep_anchor:
  "contains ''papers referenced''
     (''- '' @ x @ '' papers referenced. '' @ ''See the details in [dl4m.bib](dl4m.bib).\<newline>'')"
  "contains ''unique researchers''
     (''- '' @ x @ '' unique researchers. '' @ ''See the list of [authors](authors.md).\<newline>'')"
  "contains ''tasks investigated''
     (''- '' @ x @ '' tasks investigated. '' @ ''See the list of [tasks](tasks.md).\<newline>'')"
  "contains ''datasets used''
     (''- '' @ x @ '' datasets used. '' @ ''See the list of [datasets](datasets.md).\<newline>'')"
proof -
  have "sublist ''papers referenced''
     ((''- '' @ x @ '' '') @ ''papers referenced'' @ ''. See the details in [dl4m.bib](dl4m.bib).\<newline>'')"
    by (rule sublist_appendI)
  then show "contains ''papers referenced''
     (''- '' @ x @ '' papers referenced. '' @ ''See the details in [dl4m.bib](dl4m.bib).\<newline>'')"
    by (simp add: contains_iff_sublist)
  have "sublist ''unique researchers''
     ((''- '' @ x @ '' '') @ ''unique researchers'' @ ''. See the list of [authors](authors.md).\<newline>'')"
    by (rule sublist_appendI)
  then show "contains ''unique researchers''
     (''- '' @ x @ '' unique researchers. '' @ ''See the list of [authors](authors.md).\<newline>'')"
    by (simp add: contains_iff_sublist)
  have "sublist ''tasks investigated''
     ((''- '' @ x @ '' '') @ ''tasks investigated'' @ ''. See the list of [tasks](tasks.md).\<newline>'')"
    by (rule sublist_appendI)
  then show "contains ''tasks investigated''
     (''- '' @ x @ '' tasks investigated. '' @ ''See the list of [tasks](tasks.md).\<newline>'')"
    by (simp add: contains_iff_sublist)
  have "sublist ''datasets used''
     ((''- '' @ x @ '' '') @ ''datasets used'' @ ''. See the list of [datasets](datasets.md).\<newline>'')"
    by (rule sublist_appendI)
  then show "contains ''datasets used''
     (''- '' @ x @ '' datasets used. '' @ ''See the list of [datasets](datasets.md).\<newline>'')"
    by (simp add: contains_iff_sublist)
qed

lemma architectures_line_no_anchor:
  "matches_no_anchor
     (''- '' @ str_nat n @ '' architectures used. See the list of [architectures](architectures.md).\<newline>'')"
proof -
  let ?b = "'' architectures used. See the list of [architectures](architectures.md).\<newline>''"
  have t: "is_table_line (''- '' @ str_nat n @ ?b) = Inr False"
    by (simp add: is_table_line_def)
  have "\<not> contains ''papers referenced'' (''- '' @ str_nat n @ ?b)"
    by (rule count_text_lacks) simp_all
  moreover have "\<not> contains ''unique researchers'' (''- '' @ str_nat n @ ?b)"
    by (rule count_text_lacks) simp_all
  moreover have "\<not> contains ''tasks investigated'' (''- '' @ str_nat n @ ?b)"
    by (rule count_text_lacks) simp_all
  moreover have "\<not> contains ''datasets used'' (''- '' @ str_nat n @ ?b)"
    by (rule count_text_lacks) simp_all
  moreover have "\<not> contains ''architecture used'' (''- '' @ str_nat n @ ?b)"
    by (rule count_text_lacks) simp_all
  ultimately show ?thesis
    using t unfolding matches_no_anchor_def by blast
qed

text \<open>
  C3 fails for the fifth anchor. A line that contains \<open>architecture used\<close> is replaced by
  a line that says \<open>architectures used\<close>, in the plural. Whatever the count, that line
  does not contain \<open>architecture used\<close>, nor any other anchor, so the next run copies it
  as it is and the count it shows is never brought up to date.
\<close>

theorem architecture_line_not_rematched:
  "rewrite_line fr ''- 3 architecture used.\<newline>'' (readme, pasted)
      = Inr (readme @ ''- '' @ nb_archi fr
               @ '' architectures used. See the list of [architectures](architectures.md).\<newline>'', pasted)
   \<and> \<not> contains ''architecture used''
        (''- '' @ str_nat n @ '' architectures used. See the list of [architectures](architectures.md).\<newline>'')
   \<and> rewrite_line fr
        (''- '' @ str_nat n @ '' architectures used. See the list of [architectures](architectures.md).\<newline>'')
        (readme, pasted)
      = Inr (readme @ ''- '' @ str_nat n
               @ '' architectures used. See the list of [architectures](architectures.md).\<newline>'', pasted)"
proof (intro conjI)
  show "rewrite_line fr ''- 3 architecture used.\<newline>'' (readme, pasted)
      = Inr (readme @ ''- '' @ nb_archi fr
               @ '' architectures used. See the list of [architectures](architectures.md).\<newline>'', pasted)"
    by (simp add: rewrite_line_def is_table_line_def)
next
  show "\<not> contains ''architecture used''
        (''- '' @ str_nat n @ '' architectures used. See the list of [architectures](architectures.md).\<newline>'')"
    using architectures_line_no_anchor [of n] by (simp add: matches_no_anchor_def)
next
  have "is_table_line (''- '' @ str_nat n
      @ '' architectures used. See the list of [architectures](architectures.md).\<newline>'') \<noteq> Inl IndexError"
    using architectures_line_no_anchor [of n] by (simp add: matches_no_anchor_def)
  then have ne: "''- '' @ str_nat n
      @ '' architectures used. See the list of [architectures](architectures.md).\<newline>'' \<noteq> ''| ''"
    by (simp add: is_table_line_raises)
  have nt: "\<not> table_line (''- '' @ str_nat n
      @ '' architectures used. See the list of [architectures](architectures.md).\<newline>'')"
    using architectures_line_no_anchor [of n] by (simp add: matches_no_anchor_def is_table_line_False)
  show "rewrite_line fr
        (''- '' @ str_nat n @ '' architectures used. See the list of [architectures](architectures.md).\<newline>'')
        (readme, pasted)
      = Inr (readme @ ''- '' @ str_nat n
               @ '' architectures used. See the list of [architectures](architectures.md).\<newline>'', pasted)"
    using rewrite_line_eq [OF ne, of fr readme pasted] nt
      count_line_no_anchor [OF architectures_line_no_anchor [of n], of fr]
    by simp
qed

subsection \<open>generate_summary_table: the counts handed to the rewrite\<close>

lemma get_nb_articles_run:
  "get_nb_articles bib w =
     Inr (length bib, w\<lparr>stdout := stdout w @ ''There are '' @ str_nat (length bib) @ '' articles referenced.\<newline>''\<rparr>)"
  by (simp add: get_nb_articles_def io_simps print_def)

lemma get_authors_run:
  assumes "\<forall>e\<in>set bib. e ''author'' \<noteq> None"
  shows "\<exists>w'. get_authors bib w
            = Inr (len_set (concat (map (\<lambda>e. split_py '' and '' (the (e ''author''))) bib)), w')
          \<and> files w' = (files w)(''authors.md'' \<mapsto> ''# List of authors\<newline>\<newline>'' @
                bullet_lines (sorted_set (concat (map (\<lambda>e. split_py '' and '' (the (e ''author''))) bib))))"
proof -
  have "collect_authors bib [] = Inr (concat (map (\<lambda>e. split_py '' and '' (the (e ''author''))) bib))"
    using assms collect_authors_present [of bib "[]"] by simp
  then show ?thesis
    by (simp add: get_authors_def io_simps print_def write_file_def Let_def sorted_set_def len_set_def)
qed

lemma get_field_run:
  assumes "field_name \<in> set valid_fields"
  shows "\<exists>w'. get_field bib field_name w = Inr (len_set (field_values field_name bib), w')
          \<and> files w' = (files w)(field_name @ ''s.md'' \<mapsto>
                 ''# List of '' @ field_name @ ''s\<newline>\<newline>''
                 @ ''Please refer to the list of useful acronyms used in deep learning and music: [acronyms.md](acronyms.md).\<newline>\<newline>''
                 @ bullet_lines (sorted_set (field_values field_name bib)))"
proof -
  have ok: "validate_field field_name = Inr ()"
    using assms by (simp add: validate_field_def Let_def)
  show ?thesis
    by (simp add: get_field_def ok collect_fields_eq io_simps print_def write_file_def Let_def)
qed

text \<open>
  When every record has an author, \<open>generate_summary_table\<close> is the rewrite of README.md
  with the counts of the collection, run in a world where README.md is as it was.
\<close>

lemma generate_summary_table_rewrite:
  assumes "\<forall>e\<in>set bib. e ''author'' \<noteq> None"
  shows "\<exists>w1. files w1 ''README.md'' = files w ''README.md''
     \<and> generate_summary_table bib w =
         rewrite_readme
           \<lparr>nb_articles = str_nat (length bib),
            nb_authors = str_nat (len_set (concat (map (\<lambda>e. split_py '' and '' (the (e ''author''))) bib))),
            nb_tasks = str_nat (len_set (field_values ''task'' bib)),
            nb_datasets = str_nat (len_set (field_values ''dataset'' bib)),
            nb_archi = str_nat (len_set (field_values ''architecture'' bib)),
            articles = generate_list_articles bib\<rparr> w1"
proof -
  obtain w0 where n: "get_nb_articles bib w = Inr (length bib, w0)"
    and f0: "files w0 ''README.md'' = files w ''README.md''"
    by (simp add: get_nb_articles_run)
  obtain w2 where a: "get_authors bib w0
            = Inr (len_set (concat (map (\<lambda>e. split_py '' and '' (the (e ''author''))) bib)), w2)"
    and f2: "files w2 ''README.md'' = files w ''README.md''"
    using get_authors_run [OF assms, of w0] f0 by auto
  obtain w3 where t: "get_field bib ''task'' w2 = Inr (len_set (field_values ''task'' bib), w3)"
    and f3: "files w3 ''README.md'' = files w ''README.md''"
    using get_field_run [of "''task''" bib w2] f2 by (auto simp: valid_fields_def)
  obtain w4 where d: "get_field bib ''dataset'' w3 = Inr (len_set (field_values ''dataset'' bib), w4)"
    and f4: "files w4 ''README.md'' = files w ''README.md''"
    using get_field_run [of "''dataset''" bib w3] f3 by (auto simp: valid_fields_def)
  obtain w5 where r: "get_field bib ''architecture'' w4 = Inr (len_set (field_values ''architecture'' bib), w5)"
    and f5: "files w5 ''README.md'' = files w ''README.md''"
    using get_field_run [of "''architecture''" bib w4] f4 by (auto simp: valid_fields_def)
  have "generate_summary_table bib w =
         rewrite_readme
           \<lparr>nb_articles = str_nat (length bib),
            nb_authors = str_nat (len_set (concat (map (\<lambda>e. split_py '' and '' (the (e ''author''))) bib))),
            nb_tasks = str_nat (len_set (field_values ''task'' bib)),
            nb_datasets = str_nat (len_set (field_values ''dataset'' bib)),
            nb_archi = str_nat (len_set (field_values ''architecture'' bib)),
            articles = generate_list_articles bib\<rparr> w5"
    by (simp add: generate_summary_table_def io_simps n a t d r)
  with f5 show ?thesis by blast
qed

end
